theory Spec2Isabelle
  imports Complex_Main "HOL-Library.Word"
begin

section \<open>JavaScript values used by the decoder\<close>

text \<open>
  The decoder of \<^verbatim>\<open>app.js\<close> reads an \<^verbatim>\<open>ArrayBuffer\<close> through a \<^verbatim>\<open>DataView\<close>.
  A buffer is a list of bytes. Every \<^verbatim>\<open>DataView\<close> getter checks its range and throws a
  \<^verbatim>\<open>RangeError\<close> when the requested bytes are not all inside the buffer; so does the
  \<^verbatim>\<open>Uint8Array\<close> constructor on a negative length. An exception is the \<open>Inl\<close> branch of a sum.
\<close>

datatype js_error = RangeError

type_synonym byte = "8 word"

type_synonym 'a result = "js_error + 'a"

definition rbind :: "'a result \<Rightarrow> ('a \<Rightarrow> 'b result) \<Rightarrow> 'b result" where
  "rbind m f = (case m of Inl e \<Rightarrow> Inl e | Inr v \<Rightarrow> f v)"

text \<open>
  A JavaScript Number is a binary64 value: NaN, an infinity, or a finite value, kept here
  as the real number it denotes. Every arithmetic operation of the source returns the
  exact result rounded to the nearest binary64, ties to even (\<open>round64\<close>); it overflows
  to an infinity from \<open>2 ^ 1024\<close> on. The two zeros are one value: no operation of the
  decoder tells them apart. Comparisons with \<open>NaN\<close> are false, as in IEEE 754.
\<close>

datatype jsnum = NaN | NInf | Num real | PInf

definition pow2 :: "int \<Rightarrow> real" where
  "pow2 k = (if 0 \<le> k then 2 ^ nat k else 1 / 2 ^ nat (- k))"

definition round_even :: "real \<Rightarrow> int" where
  "round_even q =
     (let n = \<lfloor>q\<rfloor>; r = q - of_int n
      in if r < 1 / 2 then n else if 1 / 2 < r then n + 1 else if even n then n else n + 1)"

text \<open>
  The nearest multiple of the unit in the last place of \<open>x\<close>: 53 significant bits, and
  the fixed unit \<open>2 ^ -1074\<close> in the subnormal range.
\<close>

definition rnd64 :: "real \<Rightarrow> real" where
  "rnd64 x =
     (if x = 0 then 0
      else let k = max (\<lfloor>log 2 \<bar>x\<bar>\<rfloor> - 52) (- 1074)
           in of_int (round_even (x / pow2 k)) * pow2 k)"

definition round64 :: "real \<Rightarrow> jsnum" where
  "round64 x =
     (let y = rnd64 x
      in if pow2 1024 \<le> \<bar>y\<bar> then (if 0 < x then PInf else NInf) else Num y)"

fun jneg :: "jsnum \<Rightarrow> jsnum" where
  "jneg NaN = NaN"
| "jneg NInf = PInf"
| "jneg PInf = NInf"
| "jneg (Num a) = Num (- a)"

fun jadd :: "jsnum \<Rightarrow> jsnum \<Rightarrow> jsnum" where
  "jadd NaN b = NaN"
| "jadd a NaN = NaN"
| "jadd (Num a) (Num b) = round64 (a + b)"
| "jadd PInf NInf = NaN"
| "jadd NInf PInf = NaN"
| "jadd PInf b = PInf"
| "jadd NInf b = NInf"
| "jadd a PInf = PInf"
| "jadd a NInf = NInf"

definition jsub :: "jsnum \<Rightarrow> jsnum \<Rightarrow> jsnum" where
  "jsub a b = jadd a (jneg b)"

definition inf_signed :: "real \<Rightarrow> jsnum" where
  "inf_signed s = (if s = 0 then NaN else if 0 < s then PInf else NInf)"

fun jmul :: "jsnum \<Rightarrow> jsnum \<Rightarrow> jsnum" where
  "jmul NaN b = NaN"
| "jmul a NaN = NaN"
| "jmul (Num a) (Num b) = round64 (a * b)"
| "jmul (Num a) PInf = inf_signed a"
| "jmul (Num a) NInf = inf_signed (- a)"
| "jmul PInf (Num b) = inf_signed b"
| "jmul NInf (Num b) = inf_signed (- b)"
| "jmul PInf PInf = PInf"
| "jmul NInf NInf = PInf"
| "jmul PInf NInf = NInf"
| "jmul NInf PInf = NInf"

fun jdiv :: "jsnum \<Rightarrow> jsnum \<Rightarrow> jsnum" where
  "jdiv NaN b = NaN"
| "jdiv a NaN = NaN"
| "jdiv (Num a) (Num b) = (if b = 0 then inf_signed a else round64 (a / b))"
| "jdiv (Num a) PInf = Num 0"
| "jdiv (Num a) NInf = Num 0"
| "jdiv PInf (Num b) = (if 0 \<le> b then PInf else NInf)"
| "jdiv NInf (Num b) = (if 0 \<le> b then NInf else PInf)"
| "jdiv a b = NaN"

fun jfloor :: "jsnum \<Rightarrow> jsnum" where
  "jfloor (Num a) = Num (of_int \<lfloor>a\<rfloor>)"
| "jfloor a = a"

fun jlt :: "jsnum \<Rightarrow> jsnum \<Rightarrow> bool" where
  "jlt NaN b = False"
| "jlt a NaN = False"
| "jlt (Num a) (Num b) = (a < b)"
| "jlt a NInf = False"
| "jlt PInf b = False"
| "jlt NInf b = True"
| "jlt a PInf = True"

fun jle :: "jsnum \<Rightarrow> jsnum \<Rightarrow> bool" where
  "jle NaN b = False"
| "jle a NaN = False"
| "jle a b = (a = b \<or> jlt a b)"

definition jgt :: "jsnum \<Rightarrow> jsnum \<Rightarrow> bool" where
  "jgt a b = jlt b a"

definition jge :: "jsnum \<Rightarrow> jsnum \<Rightarrow> bool" where
  "jge a b = jle b a"

text \<open>
  \<^verbatim>\<open>new Date(value)\<close> keeps the time value \<open>TimeClip(value)\<close>: NaN when the value is not
  finite or beyond \<open>8.64e15\<close> in magnitude, and the value truncated towards zero to a
  whole number of milliseconds otherwise.
\<close>

definition new_Date :: "jsnum \<Rightarrow> jsnum" where
  "new_Date v =
     (case v of
        Num t \<Rightarrow> (if 8640000000000000 < \<bar>t\<bar> then NaN
                  else Num (of_int (if 0 \<le> t then \<lfloor>t\<rfloor> else \<lceil>t\<rceil>)))
      | _ \<Rightarrow> NaN)"

text \<open>
  \<^verbatim>\<open>Math.PI\<close> is the binary64 nearest to \<open>\<pi>\<close>, \<open>884279719003555 / 2 ^ 48\<close>.
  ECMAScript leaves \<^verbatim>\<open>Math.exp\<close> and \<^verbatim>\<open>Math.atan\<close> to the implementation; here they
  return the exact value rounded to binary64, and \<^verbatim>\<open>Math.atan\<close> of an argument of
  magnitude \<open>2 ^ 66\<close> or more is \<^verbatim>\<open>Math.PI / 2\<close> with the argument's sign, the binary64
  nearest to the exact arctangent there.
\<close>

definition MATH_PI :: real where
  "MATH_PI = 884279719003555 / 2 ^ 48"

definition Math_exp :: "jsnum \<Rightarrow> jsnum" where
  "Math_exp v =
     (case v of NaN \<Rightarrow> NaN | PInf \<Rightarrow> PInf | NInf \<Rightarrow> Num 0 | Num u \<Rightarrow> round64 (exp u))"

definition Math_atan :: "jsnum \<Rightarrow> jsnum" where
  "Math_atan v =
     (case v of
        NaN \<Rightarrow> NaN
      | PInf \<Rightarrow> Num (MATH_PI / 2)
      | NInf \<Rightarrow> Num (- (MATH_PI / 2))
      | Num t \<Rightarrow> (if pow2 66 \<le> t then Num (MATH_PI / 2)
                  else if t \<le> - pow2 66 then Num (- (MATH_PI / 2))
                  else round64 (arctan t)))"

subsection \<open>DataView getters, little-endian\<close>

fun le_value :: "byte list \<Rightarrow> nat" where
  "le_value [] = 0"
| "le_value (b # bs) = unat b + 256 * le_value bs"

definition getUint :: "nat \<Rightarrow> byte list \<Rightarrow> nat \<Rightarrow> nat result" where
  "getUint n view byteOffset =
     (if byteOffset + n \<le> length view
      then Inr (le_value (take n (drop byteOffset view)))
      else Inl RangeError)"

definition to_signed :: "nat \<Rightarrow> nat \<Rightarrow> int" where
  "to_signed w v = (if 2 ^ (w - 1) \<le> v then int v - 2 ^ w else int v)"

definition getUint16 :: "byte list \<Rightarrow> nat \<Rightarrow> nat result" where
  "getUint16 view byteOffset = getUint 2 view byteOffset"

definition getUint32 :: "byte list \<Rightarrow> nat \<Rightarrow> nat result" where
  "getUint32 view byteOffset = getUint 4 view byteOffset"

definition getInt16 :: "byte list \<Rightarrow> nat \<Rightarrow> int result" where
  "getInt16 view byteOffset = rbind (getUint 2 view byteOffset) (\<lambda>v. Inr (to_signed 16 v))"

definition getInt32 :: "byte list \<Rightarrow> nat \<Rightarrow> int result" where
  "getInt32 view byteOffset = rbind (getUint 4 view byteOffset) (\<lambda>v. Inr (to_signed 32 v))"

text \<open>
  The value of a binary32 bit pattern: sign bit 31, exponent bits 30..23, fraction bits
  22..0. Every binary32 value is a binary64 value, so the widening is exact.
\<close>

definition float32_value :: "nat \<Rightarrow> jsnum" where
  "float32_value bits =
     (let s = bits div 2 ^ 31 mod 2;
          e = bits div 2 ^ 23 mod 256;
          m = bits mod 2 ^ 23;
          sg = (if s = 1 then - 1 else 1 :: real)
      in if e = 255 then (if m = 0 then (if s = 1 then NInf else PInf) else NaN)
         else if e = 0 then Num (sg * real m / 2 ^ 149)
         else if 127 \<le> e then Num (sg * (1 + real m / 2 ^ 23) * 2 ^ (e - 127))
         else Num (sg * (1 + real m / 2 ^ 23) / 2 ^ (127 - e)))"

definition getFloat32 :: "byte list \<Rightarrow> nat \<Rightarrow> jsnum result" where
  "getFloat32 view byteOffset = rbind (getUint 4 view byteOffset) (\<lambda>v. Inr (float32_value v))"

text \<open>
  \<^verbatim>\<open>new Uint8Array(buffer, byteOffset, length)\<close>: a view of \<open>length\<close> bytes from
  \<open>byteOffset\<close>. A negative length, or a range that leaves the buffer, throws.
\<close>

definition new_Uint8Array :: "byte list \<Rightarrow> nat \<Rightarrow> int \<Rightarrow> byte list result" where
  "new_Uint8Array buffer byteOffset len =
     (if len < 0 \<or> length buffer < byteOffset \<or> length buffer < byteOffset + nat len
      then Inl RangeError
      else Inr (take (nat len) (drop byteOffset buffer)))"

text \<open>
  \<^verbatim>\<open>array[index]\<close> on a typed array: the element when the index is an integer inside
  the array, \<^verbatim>\<open>undefined\<close> (\<open>None\<close>) otherwise. \<^verbatim>\<open>undefined\<close> converts to \<open>NaN\<close>
  when it is added to a number.
\<close>

definition typed_get :: "byte list \<Rightarrow> jsnum \<Rightarrow> byte option" where
  "typed_get array index =
     (case index of
        Num v \<Rightarrow> (if 0 \<le> v \<and> v < real (length array) \<and> v = of_int \<lfloor>v\<rfloor>
                  then Some (array ! nat \<lfloor>v\<rfloor>) else None)
      | _ \<Rightarrow> None)"

definition to_number :: "byte option \<Rightarrow> jsnum" where
  "to_number e = (case e of Some b \<Rightarrow> Num (real (unat b)) | None \<Rightarrow> NaN)"

section \<open>The decoder\<close>

subsection \<open>getAverage\<close>

text \<open>
  The object \<^verbatim>\<open>{ sum, avg, count }\<close> that \<^verbatim>\<open>getAverage\<close> returns; \<open>sum_of\<close> and
  \<open>count_of\<close> are its \<^verbatim>\<open>sum\<close> and \<^verbatim>\<open>count\<close>. The \<^verbatim>\<open>for\<close> loop over
  \<open>i = 0, ..., count - 1\<close> is a fold of its body over these indices.
\<close>

record average =
  sum_of :: jsnum
  avg :: jsnum
  count_of :: nat

definition average_step :: "byte list \<Rightarrow> jsnum \<Rightarrow> nat \<Rightarrow> jsnum \<times> nat \<Rightarrow> jsnum \<times> nat" where
  "average_step array index i st =
     (let currentIndex = jadd index (Num (real i))
      in if jlt currentIndex (Num (real (length array)))
         then (jadd (fst st) (to_number (typed_get array currentIndex)), snd st + 1)
         else st)"

definition getAverage :: "byte list \<Rightarrow> jsnum \<Rightarrow> nat \<Rightarrow> average" where
  "getAverage array index count =
     (let st = fold (average_step array index) [0..<count] (Num 0, 0);
          actualCount = snd st
      in \<lparr> sum_of = fst st,
           avg = (if 0 < actualCount then jdiv (fst st) (Num (real actualCount)) else Num 0),
           count_of = actualCount \<rparr>)"

subsection \<open>parseFrame\<close>

text \<open>
  The object that \<^verbatim>\<open>parseFrame\<close> fills in. The source's fields \<^verbatim>\<open>x\<close> and \<^verbatim>\<open>y\<close>
  are \<open>frame_x\<close> and \<open>frame_y\<close> here. \<open>timestamp\<close> is the time value of the
  \<^verbatim>\<open>Date\<close> object, in milliseconds. \<open>bottom_density_1\<close> is \<open>None\<close> when the source
  stores \<^verbatim>\<open>undefined\<close>. The literals \<^verbatim>\<open>0.3048\<close> and \<^verbatim>\<open>6356752.3142\<close> denote
  the binary64 values nearest to them.
\<close>

record frame =
  min_range :: jsnum
  max_range :: jsnum
  water_depth :: jsnum
  frame_x :: int
  frame_y :: int
  frame_size :: nat
  header_size :: nat
  longitude :: jsnum
  latitude :: jsnum
  timestamp :: jsnum
  bottom_density_1 :: "byte option"
  bottom_density_10 :: jsnum
  bottom_density_100 :: jsnum

definition FEET_TO_METERS :: jsnum where
  "FEET_TO_METERS = round64 0.3048"

definition EARTH_RADIUS :: jsnum where
  "EARTH_RADIUS = round64 6356752.3142"

text \<open>
  \<^verbatim>\<open>frame.x / 6356752.3142 * (180 / Math.PI)\<close> and
  \<^verbatim>\<open>(2 * Math.atan(Math.exp(frame.y / 6356752.3142)) - (Math.PI / 2)) * (180 / Math.PI)\<close>.
\<close>

definition longitude_of :: "int \<Rightarrow> jsnum" where
  "longitude_of x =
     jmul (jdiv (Num (real_of_int x)) EARTH_RADIUS) (jdiv (Num 180) (Num MATH_PI))"

definition latitude_of :: "int \<Rightarrow> jsnum" where
  "latitude_of y =
     jmul (jsub (jmul (Num 2) (Math_atan (Math_exp (jdiv (Num (real_of_int y)) EARTH_RADIUS))))
                (jdiv (Num MATH_PI) (Num 2)))
          (jdiv (Num 180) (Num MATH_PI))"

text \<open>
  The fields read in the two branches of \<^verbatim>\<open>parseFrame\<close> (lines 125 to 150), in the
  order of the source; \<open>None\<close> is the early \<^verbatim>\<open>return null\<close> on a survey type other than 0.
\<close>

record fields =
  f_min_range :: jsnum
  f_max_range :: jsnum
  f_water_depth :: jsnum
  f_x :: int
  f_y :: int
  f_secondsOffset :: jsnum
  f_frame_size :: nat
  f_header_size :: nat

definition readFields :: "byte list \<Rightarrow> nat \<Rightarrow> bool \<Rightarrow> fields option result" where
  "readFields view position isSl3 =
     (if isSl3 then
        rbind (getUint16 view (position + 12)) (\<lambda>surveyType.
        if surveyType \<noteq> 0 then Inr None else
        rbind (getFloat32 view (position + 20)) (\<lambda>mn.
        rbind (getFloat32 view (position + 24)) (\<lambda>mx.
        rbind (getFloat32 view (position + 48)) (\<lambda>wd.
        rbind (getInt32 view (position + 92)) (\<lambda>x.
        rbind (getInt32 view (position + 96)) (\<lambda>y.
        rbind (getUint32 view (position + 124)) (\<lambda>ms.
        rbind (getUint16 view (position + 8)) (\<lambda>fs.
        Inr (Some \<lparr> f_min_range = jmul mn FEET_TO_METERS,
                     f_max_range = jmul mx FEET_TO_METERS,
                     f_water_depth = jmul wd FEET_TO_METERS,
                     f_x = x, f_y = y,
                     f_secondsOffset = jdiv (Num (real ms)) (Num 1000),
                     f_frame_size = fs, f_header_size = 168 \<rparr>)))))))))
      else
        rbind (getUint16 view (position + 32)) (\<lambda>surveyType.
        if surveyType \<noteq> 0 then Inr None else
        rbind (getFloat32 view (position + 40)) (\<lambda>mn.
        rbind (getFloat32 view (position + 44)) (\<lambda>mx.
        rbind (getFloat32 view (position + 64)) (\<lambda>wd.
        rbind (getInt32 view (position + 108)) (\<lambda>x.
        rbind (getInt32 view (position + 112)) (\<lambda>y.
        rbind (getUint32 view (position + 140)) (\<lambda>ms.
        rbind (getUint16 view (position + 28)) (\<lambda>fs.
        Inr (Some \<lparr> f_min_range = jmul mn FEET_TO_METERS,
                     f_max_range = jmul mx FEET_TO_METERS,
                     f_water_depth = jmul wd FEET_TO_METERS,
                     f_x = x, f_y = y,
                     f_secondsOffset = jdiv (Num (real ms)) (Num 1000),
                     f_frame_size = fs, f_header_size = 144 \<rparr>))))))))))"

text \<open>The rest of \<^verbatim>\<open>parseFrame\<close> (lines 152 to 182), common to both variants.\<close>

definition bottom_index_of :: "nat \<Rightarrow> jsnum \<Rightarrow> jsnum \<Rightarrow> jsnum \<Rightarrow> jsnum" where
  "bottom_index_of len mx mn wd = jfloor (jmul (jdiv (Num (real len)) (jsub mx mn)) wd)"

definition buildFrame :: "byte list \<Rightarrow> nat \<Rightarrow> nat \<Rightarrow> fields \<Rightarrow> frame option result" where
  "buildFrame view position startTime f =
     (if f_x f = 0 \<or> f_y f = 0 then Inr None else
      let timestampInSeconds = jadd (Num (real startTime)) (f_secondsOffset f);
          signalDataStart = position + f_header_size f;
          signalDataEnd = position + f_frame_size f
      in rbind (new_Uint8Array view signalDataStart (int signalDataEnd - int signalDataStart))
           (\<lambda>signalData.
        if jle (f_max_range f) (f_min_range f) then Inr None else
        let bottom_index =
              bottom_index_of (length signalData) (f_max_range f) (f_min_range f) (f_water_depth f)
        in if jlt bottom_index (Num 0) \<or> jge bottom_index (Num (real (length signalData)))
           then Inr None
           else Inr (Some \<lparr> min_range = f_min_range f,
                            max_range = f_max_range f,
                            water_depth = f_water_depth f,
                            frame_x = f_x f,
                            frame_y = f_y f,
                            frame_size = f_frame_size f,
                            header_size = f_header_size f,
                            longitude = longitude_of (f_x f),
                            latitude = latitude_of (f_y f),
                            timestamp = new_Date (jmul timestampInSeconds (Num 1000)),
                            bottom_density_1 = typed_get signalData bottom_index,
                            bottom_density_10 = avg (getAverage signalData bottom_index 10),
                            bottom_density_100 = avg (getAverage signalData bottom_index 100) \<rparr>)))"

definition parseFrame :: "byte list \<Rightarrow> nat \<Rightarrow> bool \<Rightarrow> nat \<Rightarrow> frame option result" where
  "parseFrame view position isSl3 startTime =
     rbind (readFields view position isSl3)
       (\<lambda>r. case r of None \<Rightarrow> Inr None | Some f \<Rightarrow> buildFrame view position startTime f)"

subsection \<open>parseSonarFile\<close>

definition frameHeaderSize :: "bool \<Rightarrow> nat" where
  "frameHeaderSize isSl3 = (if isSl3 then 168 else 144)"

definition frameSizeOffset :: "bool \<Rightarrow> nat" where
  "frameSizeOffset isSl3 = (if isSl3 then 8 else 28)"

definition firstFrameHardWareTimeOffset :: "bool \<Rightarrow> nat" where
  "firstFrameHardWareTimeOffset isSl3 = (if isSl3 then 40 else 60)"

text \<open>
  \<^verbatim>\<open>if (frameData && frameData.water_depth > 0) data.push(frameData)\<close>
\<close>

definition push_frame :: "frame list \<Rightarrow> frame option \<Rightarrow> frame list" where
  "push_frame data frameData =
     (case frameData of
        None \<Rightarrow> data
      | Some fr \<Rightarrow> (if jgt (water_depth fr) (Num 0) then data @ [fr] else data))"

text \<open>
  The \<^verbatim>\<open>while\<close> loop of \<^verbatim>\<open>parseSonarFile\<close> (lines 91 to 112) from a cursor
  \<open>position\<close> with the records pushed so far. Both \<^verbatim>\<open>break\<close>s return the records;
  an exception of \<^verbatim>\<open>parseFrame\<close> leaves the loop and the function.
\<close>

function scanFrames :: "byte list \<Rightarrow> bool \<Rightarrow> nat \<Rightarrow> nat \<Rightarrow> frame list \<Rightarrow> frame list result" where
  "scanFrames view isSl3 startTime position data =
     (if \<not> position < length view then Inr data
      else if length view < position + frameHeaderSize isSl3 then Inr data
      else (case getUint16 view (position + frameSizeOffset isSl3) of
              Inl e \<Rightarrow> Inl e
            | Inr frameSize \<Rightarrow>
                (if frameSize = 0 \<or> length view < position + frameSize then Inr data
                 else (case parseFrame view position isSl3 startTime of
                         Inl e \<Rightarrow> Inl e
                       | Inr frameData \<Rightarrow>
                           scanFrames view isSl3 startTime (position + frameSize)
                             (push_frame data frameData)))))"
  by pat_completeness auto
termination
  by (relation "measure (\<lambda>(view, isSl3, startTime, position, data). length view - position)") auto

declare scanFrames.simps [simp del]

text \<open>
  \<^verbatim>\<open>fileName.split('.').pop().toLowerCase()\<close>. \<open>split_dot\<close> never returns the empty
  list, so \<^verbatim>\<open>pop\<close> always finds a last element. Only the letters A to Z matter for the
  comparison with \<^verbatim>\<open>'sl3'\<close>: no other character has \<^verbatim>\<open>s\<close> or \<^verbatim>\<open>l\<close> as its lower case.
\<close>

fun split_dot :: "string \<Rightarrow> string list" where
  "split_dot [] = [[]]"
| "split_dot (c # cs) =
     (if c = CHR ''.'' then [] # split_dot cs
      else (case split_dot cs of [] \<Rightarrow> [[c]] | w # ws \<Rightarrow> (c # w) # ws))"

definition lower_char :: "char \<Rightarrow> char" where
  "lower_char c =
     (let n = (of_char c :: nat)
      in if 65 \<le> n \<and> n \<le> 90 then char_of (n + 32) else c)"

definition toLowerCase :: "string \<Rightarrow> string" where
  "toLowerCase s = map lower_char s"

definition isSl3_of :: "string \<Rightarrow> bool" where
  "isSl3_of fileName = (toLowerCase (last (split_dot fileName)) = ''sl3'')"

definition parseSonarFile :: "byte list \<Rightarrow> string \<Rightarrow> frame list result" where
  "parseSonarFile arrayBuffer fileName =
     (let isSl3 = isSl3_of fileName;
          fileHeaderSize = 8
      in rbind (getInt16 arrayBuffer 0) (\<lambda>version.
         rbind (getInt16 arrayBuffer 2) (\<lambda>deviceId.
         let position = fileHeaderSize
         in if length arrayBuffer \<le> position then Inr []
            else rbind (getUint32 arrayBuffer (position + firstFrameHardWareTimeOffset isSl3))
                   (\<lambda>startTime. scanFrames arrayBuffer isSl3 startTime position []))))"

section \<open>Naming what a frame holds\<close>

text \<open>
  The byte offsets of \<^verbatim>\<open>parseFrame\<close> as tables over the variant, and the values the
  decoder reads at a cursor when the bytes are there. The theorems below speak of a
  frame through these names.
\<close>

definition u16 :: "byte list \<Rightarrow> nat \<Rightarrow> nat" where
  "u16 view p = le_value (take 2 (drop p view))"

definition u32 :: "byte list \<Rightarrow> nat \<Rightarrow> nat" where
  "u32 view p = le_value (take 4 (drop p view))"

definition surveyTypeOffset :: "bool \<Rightarrow> nat" where
  "surveyTypeOffset isSl3 = (if isSl3 then 12 else 32)"

definition minRangeOffset :: "bool \<Rightarrow> nat" where
  "minRangeOffset isSl3 = (if isSl3 then 20 else 40)"

definition maxRangeOffset :: "bool \<Rightarrow> nat" where
  "maxRangeOffset isSl3 = (if isSl3 then 24 else 44)"

definition waterDepthOffset :: "bool \<Rightarrow> nat" where
  "waterDepthOffset isSl3 = (if isSl3 then 48 else 64)"

definition xOffset :: "bool \<Rightarrow> nat" where
  "xOffset isSl3 = (if isSl3 then 92 else 108)"

definition yOffset :: "bool \<Rightarrow> nat" where
  "yOffset isSl3 = (if isSl3 then 96 else 112)"

definition timeOffset :: "bool \<Rightarrow> nat" where
  "timeOffset isSl3 = (if isSl3 then 124 else 140)"

definition meters_at :: "byte list \<Rightarrow> nat \<Rightarrow> jsnum" where
  "meters_at view p = jmul (float32_value (u32 view p)) FEET_TO_METERS"

definition fields_at :: "byte list \<Rightarrow> nat \<Rightarrow> bool \<Rightarrow> fields" where
  "fields_at view position isSl3 =
     \<lparr> f_min_range = meters_at view (position + minRangeOffset isSl3),
       f_max_range = meters_at view (position + maxRangeOffset isSl3),
       f_water_depth = meters_at view (position + waterDepthOffset isSl3),
       f_x = to_signed 32 (u32 view (position + xOffset isSl3)),
       f_y = to_signed 32 (u32 view (position + yOffset isSl3)),
       f_secondsOffset = jdiv (Num (real (u32 view (position + timeOffset isSl3)))) (Num 1000),
       f_frame_size = u16 view (position + frameSizeOffset isSl3),
       f_header_size = frameHeaderSize isSl3 \<rparr>"

definition survey_type_at :: "byte list \<Rightarrow> nat \<Rightarrow> bool \<Rightarrow> nat" where
  "survey_type_at view position isSl3 = u16 view (position + surveyTypeOffset isSl3)"

definition frame_size_at :: "byte list \<Rightarrow> nat \<Rightarrow> bool \<Rightarrow> nat" where
  "frame_size_at view position isSl3 = u16 view (position + frameSizeOffset isSl3)"

definition signal_length_at :: "byte list \<Rightarrow> nat \<Rightarrow> bool \<Rightarrow> nat" where
  "signal_length_at view position isSl3 = frame_size_at view position isSl3 - frameHeaderSize isSl3"

definition signal_at :: "byte list \<Rightarrow> nat \<Rightarrow> bool \<Rightarrow> byte list" where
  "signal_at view position isSl3 =
     take (signal_length_at view position isSl3) (drop (position + frameHeaderSize isSl3) view)"

definition bottom_index_at :: "byte list \<Rightarrow> nat \<Rightarrow> bool \<Rightarrow> jsnum" where
  "bottom_index_at view position isSl3 =
     (let f = fields_at view position isSl3
      in bottom_index_of (signal_length_at view position isSl3)
           (f_max_range f) (f_min_range f) (f_water_depth f))"

definition frame_at :: "byte list \<Rightarrow> nat \<Rightarrow> bool \<Rightarrow> nat \<Rightarrow> frame" where
  "frame_at view position isSl3 startTime =
     (let f = fields_at view position isSl3;
          signalData = signal_at view position isSl3;
          bottom_index = bottom_index_at view position isSl3
      in \<lparr> min_range = f_min_range f,
           max_range = f_max_range f,
           water_depth = f_water_depth f,
           frame_x = f_x f,
           frame_y = f_y f,
           frame_size = f_frame_size f,
           header_size = f_header_size f,
           longitude = longitude_of (f_x f),
           latitude = latitude_of (f_y f),
           timestamp =
             new_Date (jmul (jadd (Num (real startTime)) (f_secondsOffset f)) (Num 1000)),
           bottom_density_1 = typed_get signalData bottom_index,
           bottom_density_10 = avg (getAverage signalData bottom_index 10),
           bottom_density_100 = avg (getAverage signalData bottom_index 100) \<rparr>)"

text \<open>The part of a file name after its last dot; the whole name when it has no dot.\<close>

definition final_suffix :: "string \<Rightarrow> string" where
  "final_suffix fileName = rev (takeWhile (\<lambda>c. c \<noteq> CHR ''.'') (rev fileName))"

section \<open>Sample logs\<close>

text \<open>
  A variant-B log of 162 bytes: the 8-byte file header and one primary-channel frame at
  byte 8 with \<open>frame_size = 154\<close> (a signal run of 10 bytes), ranges 0 and 64 feet,
  depth 48 feet, \<open>x = 1000000\<close>, \<open>y = 2000000\<close>, time base 1700000000 and a frame
  offset of 5000 ms. The last three signal bytes are 30, 60 and 90.
\<close>

definition one_frame_log :: "byte list" where
  "one_frame_log = (replicate 162 0)
     [36 := 154,
      54 := 0x80, 55 := 0x42,
      68 := 0x00, 69 := 0xF1, 70 := 0x53, 71 := 0x65,
      74 := 0x40, 75 := 0x42,
      116 := 0x40, 117 := 0x42, 118 := 0x0F,
      120 := 0x80, 121 := 0x84, 122 := 0x1E,
      148 := 0x88, 149 := 0x13,
      159 := 30, 160 := 60, 161 := 90]"

text \<open>The same log with the bit pattern \<open>0x7FC00000\<close> (a NaN) as \<open>max_range\<close>.\<close>

definition nan_range_log :: "byte list" where
  "nan_range_log = one_frame_log[54 := 0xC0, 55 := 0x7F]"

text \<open>The same log with a declared \<open>frame_size\<close> of 100, less than the header's 144.\<close>

definition short_frame_log :: "byte list" where
  "short_frame_log = one_frame_log[36 := 100]"

text \<open>
  A variant-B log of 306 bytes with two frames. The first, at byte 8, is 144 bytes long,
  belongs to survey channel 1 and carries the time base 1700000000. The second, at byte
  152, is the frame of \<open>one_frame_log\<close>, with another value (255) in its own
  hardware-time field.
\<close>

definition two_frame_log :: "byte list" where
  "two_frame_log = (replicate 306 0)
     [36 := 144, 40 := 1,
      68 := 0x00, 69 := 0xF1, 70 := 0x53, 71 := 0x65,
      180 := 154,
      198 := 0x80, 199 := 0x42,
      212 := 0xFF,
      218 := 0x40, 219 := 0x42,
      260 := 0x40, 261 := 0x42, 262 := 0x0F,
      264 := 0x80, 265 := 0x84, 266 := 0x1E,
      292 := 0x88, 293 := 0x13,
      303 := 30, 304 := 60, 305 := 90]"

text \<open>
  The short-frame log with both ranges 0, so that \<open>max_range \<le> min_range\<close>.
\<close>

definition flat_short_frame_log :: "byte list" where
  "flat_short_frame_log = one_frame_log[36 := 100, 54 := 0, 55 := 0]"

text \<open>The one-frame log with time base 0 and a frame offset of 1001 ms.\<close>

definition late_offset_log :: "byte list" where
  "late_offset_log = one_frame_log[69 := 0, 70 := 0, 71 := 0, 148 := 0xE9, 149 := 0x03]"

text \<open>
  A variant-A log of 186 bytes: the file header and one primary-channel frame at byte 8
  with \<open>frame_size = 178\<close> (header 168, a signal run of 10 bytes) and the field values
  of \<open>one_frame_log\<close> at the offsets of variant A.
\<close>

definition one_frame_log_a :: "byte list" where
  "one_frame_log_a = (replicate 186 0)
     [16 := 178,
      34 := 0x80, 35 := 0x42,
      48 := 0x00, 49 := 0xF1, 50 := 0x53, 51 := 0x65,
      58 := 0x40, 59 := 0x42,
      100 := 0x40, 101 := 0x42, 102 := 0x0F,
      104 := 0x80, 105 := 0x84, 106 := 0x1E,
      132 := 0x88, 133 := 0x13,
      183 := 30, 184 := 60, 185 := 90]"

section \<open>Rounding to binary64\<close>

lemma pow2_powr: "pow2 k = 2 powr (of_int k)"
proof (cases "0 \<le> k")
  case True
  then have "2 powr (of_int k) = (2::real) powr (real (nat k))" by simp
  also have "\<dots> = 2 ^ nat k" by (rule powr_realpow) simp
  finally show ?thesis using True by (simp add: pow2_def)
next
  case False
  then have "2 powr (of_int k) = (2::real) powr (- real (nat (- k)))" by simp
  also have "\<dots> = inverse (2 powr (real (nat (- k))))" by (rule powr_minus)
  also have "2 powr (real (nat (- k))) = (2::real) ^ nat (- k)" by (rule powr_realpow) simp
  finally show ?thesis using False by (simp add: pow2_def inverse_eq_divide)
qed

lemma pow2_pos [simp]: "0 < pow2 k"
  by (simp add: pow2_powr)

lemma pow2_add: "pow2 (j + k) = pow2 j * pow2 k"
  by (simp add: pow2_powr powr_add)

lemma pow2_mono: "j \<le> k \<Longrightarrow> pow2 j \<le> pow2 k"
  by (simp add: pow2_powr)

lemma pow2_nonpos [simp]: "\<not> pow2 k \<le> 0"
  using pow2_pos [of k] by linarith

lemma pow2_not_neg [simp]: "\<not> pow2 k < 0"
  using pow2_pos [of k] by linarith

lemma pow2_neq0 [simp]: "pow2 k \<noteq> 0"
  using pow2_pos [of k] by linarith

lemma pow2_abs [simp]: "\<bar>pow2 k\<bar> = pow2 k"
  using pow2_pos [of k] by linarith

lemma pow2_1: "pow2 1 = 2"
  by (simp add: pow2_def)

lemma pow2_Suc: "pow2 (k + 1) = 2 * pow2 k"
  using pow2_add [of k 1] by (simp add: pow2_1)

lemma pow2_half: "pow2 k / 2 = pow2 (k - 1)"
  using pow2_Suc [of "k - 1"] by simp

lemma floor_log2: "pow2 j \<le> \<bar>x\<bar> \<Longrightarrow> \<bar>x\<bar> < pow2 (j + 1) \<Longrightarrow> \<lfloor>log 2 \<bar>x\<bar>\<rfloor> = j"
proof -
  assume a: "pow2 j \<le> \<bar>x\<bar>" "\<bar>x\<bar> < pow2 (j + 1)"
  then have "0 < \<bar>x\<bar>" using pow2_pos [of j] by linarith
  then show ?thesis using a by (subst floor_log_eq_powr_iff) (simp_all add: pow2_powr)
qed

lemma log2_bounds: "x \<noteq> 0 \<Longrightarrow> pow2 \<lfloor>log 2 \<bar>x\<bar>\<rfloor> \<le> \<bar>x\<bar> \<and> \<bar>x\<bar> < pow2 (\<lfloor>log 2 \<bar>x\<bar>\<rfloor> + 1)"
proof -
  assume "x \<noteq> 0"
  then have "0 < \<bar>x\<bar>" by simp
  from floor_log_eq_powr_iff [OF this, of 2 "\<lfloor>log 2 \<bar>x\<bar>\<rfloor>"]
  show ?thesis by (simp add: pow2_powr)
qed

lemma round_even_near: "\<bar>q - of_int n\<bar> < 1 / 2 \<Longrightarrow> round_even q = n"
proof -
  assume a: "\<bar>q - of_int n\<bar> < 1 / 2"
  show ?thesis
  proof (cases "of_int n \<le> q")
    case True
    with a have "\<lfloor>q\<rfloor> = n" by (intro floor_unique) auto
    with a True show ?thesis by (simp add: round_even_def Let_def)
  next
    case False
    with a have "\<lfloor>q\<rfloor> = n - 1" by (intro floor_unique) auto
    with a False show ?thesis by (simp add: round_even_def Let_def)
  qed
qed

lemma round_even_int [simp]: "round_even (of_int n) = n"
  by (rule round_even_near) simp

lemma round_even_error: "\<bar>of_int (round_even q) - q\<bar> \<le> 1 / 2"
proof -
  have "of_int \<lfloor>q\<rfloor> \<le> q" "q < of_int \<lfloor>q\<rfloor> + 1" by linarith+
  then show ?thesis by (auto simp: round_even_def Let_def)
qed

lemma round_even_ge: "of_int m \<le> q \<Longrightarrow> m \<le> round_even q"
proof -
  assume "of_int m \<le> q"
  then have "m \<le> \<lfloor>q\<rfloor>" by (simp add: le_floor_iff)
  then show ?thesis by (auto simp: round_even_def Let_def)
qed

lemma round_even_le: "q \<le> of_int m \<Longrightarrow> round_even q \<le> m"
proof -
  assume a: "q \<le> of_int m"
  show ?thesis
  proof (cases "q = of_int m")
    case True
    then show ?thesis by simp
  next
    case False
    with a have "q < of_int m" by simp
    then have "\<lfloor>q\<rfloor> < m" by (simp add: floor_less_iff)
    then show ?thesis by (auto simp: round_even_def Let_def)
  qed
qed

lemma rnd64_near:
  assumes lo: "pow2 (k + 52) \<le> \<bar>x\<bar>" and hi: "\<bar>x\<bar> < pow2 (k + 53)"
    and k: "- 1074 \<le> k"
    and near: "\<bar>x - of_int n * pow2 k\<bar> < pow2 k / 2"
  shows "rnd64 x = of_int n * pow2 k"
proof -
  from lo have nz: "x \<noteq> 0" by auto
  have "\<lfloor>log 2 \<bar>x\<bar>\<rfloor> = k + 52" using lo hi by (intro floor_log2) (simp_all add: add.assoc)
  with k have kk: "max (\<lfloor>log 2 \<bar>x\<bar>\<rfloor> - 52) (- 1074) = k" by simp
  have "x / pow2 k - of_int n = (x - of_int n * pow2 k) / pow2 k"
    by (simp add: field_simps)
  then have "\<bar>x / pow2 k - of_int n\<bar> = \<bar>x - of_int n * pow2 k\<bar> / pow2 k"
    by (simp only: abs_divide pow2_abs)
  also have "\<dots> < 1 / 2" using near by (simp add: field_simps)
  finally have "round_even (x / pow2 k) = n" by (rule round_even_near)
  with nz kk show ?thesis by (simp add: rnd64_def)
qed

lemma rnd64_abs_error:
  assumes "\<bar>x\<bar> < pow2 (e + 1)" and "- 1022 \<le> e"
  shows "\<bar>rnd64 x - x\<bar> \<le> pow2 (e - 53)"
proof (cases "x = 0")
  case True
  then show ?thesis using pow2_pos [of "e - 53"] by (simp add: rnd64_def less_imp_le)
next
  case False
  let ?k = "max (\<lfloor>log 2 \<bar>x\<bar>\<rfloor> - 52) (- 1074)"
  from log2_bounds [OF False] assms(1) have "pow2 \<lfloor>log 2 \<bar>x\<bar>\<rfloor> < pow2 (e + 1)" by linarith
  then have "\<lfloor>log 2 \<bar>x\<bar>\<rfloor> < e + 1" by (simp add: pow2_powr)
  with assms(2) have k: "?k \<le> e - 52" by linarith
  have "rnd64 x - x = (of_int (round_even (x / pow2 ?k)) - x / pow2 ?k) * pow2 ?k"
    using False by (simp add: rnd64_def Let_def left_diff_distrib)
  then have "\<bar>rnd64 x - x\<bar> = \<bar>of_int (round_even (x / pow2 ?k)) - x / pow2 ?k\<bar> * pow2 ?k"
    by (simp only: abs_mult pow2_abs)
  also have "\<dots> \<le> 1 / 2 * pow2 ?k"
    by (intro mult_right_mono round_even_error less_imp_le pow2_pos)
  also have "\<dots> = pow2 (?k - 1)" using pow2_half [of ?k] by simp
  also have "\<dots> \<le> pow2 (e - 53)" using k by (intro pow2_mono) linarith
  finally show ?thesis .
qed


lemma rnd64_nearI:
  assumes "m \<in> \<int>" and "- 1074 \<le> k"
    and "pow2 (k + 52) \<le> \<bar>x\<bar>" and "\<bar>x\<bar> < pow2 (k + 53)"
    and "\<bar>x - m * pow2 k\<bar> < pow2 k / 2"
  shows "rnd64 x = m * pow2 k"
proof -
  from assms(1) obtain n where "m = of_int n" by (rule Ints_cases)
  with assms show ?thesis by (simp add: rnd64_near)
qed


lemma rnd64_binade:
  assumes "- 1074 \<le> k" and "pow2 (k + 52) \<le> \<bar>x\<bar>" and "\<bar>x\<bar> < pow2 (k + 53)"
  shows "rnd64 x = of_int (round_even (x / pow2 k)) * pow2 k"
proof -
  from assms(2) have nz: "x \<noteq> 0" by auto
  have "\<lfloor>log 2 \<bar>x\<bar>\<rfloor> = k + 52" using assms by (intro floor_log2) (simp_all add: add.assoc)
  with assms(1) have "max (\<lfloor>log 2 \<bar>x\<bar>\<rfloor> - 52) (- 1074) = k" by simp
  with nz show ?thesis by (simp add: rnd64_def)
qed

lemma jadd_Num: "jadd (Num a) (Num b) = round64 (a + b)"
  by simp

lemma jmul_Num: "jmul (Num a) (Num b) = round64 (a * b)"
  by simp

lemma jdiv_Num: "jdiv (Num a) (Num b) = (if b = 0 then inf_signed a else round64 (a / b))"
  by simp

lemma round64_0 [simp]: "round64 0 = Num 0"
  by (simp add: round64_def rnd64_def)

lemma pow2_less_iff: "pow2 j < pow2 k \<longleftrightarrow> j < k"
  by (simp add: pow2_powr)

lemma round64_binade:
  assumes k: "- 1074 \<le> k" "k \<le> 970"
    and lo: "pow2 (k + 52) \<le> \<bar>x\<bar>" and hi: "\<bar>x\<bar> < pow2 (k + 53)"
  shows "round64 x = Num (of_int (round_even (x / pow2 k)) * pow2 k)"
proof -
  let ?n = "round_even (x / pow2 k)"
  have r: "rnd64 x = of_int ?n * pow2 k" using k(1) lo hi by (rule rnd64_binade)
  have q: "\<bar>x / pow2 k\<bar> < pow2 53"
  proof -
    have "\<bar>x / pow2 k\<bar> = \<bar>x\<bar> / pow2 k" by (simp only: abs_divide pow2_abs)
    also have "\<dots> < pow2 (k + 53) / pow2 k" using hi by (simp add: divide_strict_right_mono)
    also have "\<dots> = pow2 53" by (simp add: pow2_add)
    finally show ?thesis .
  qed
  define N :: int where "N = 2 ^ 53"
  have p53: "pow2 53 = of_int N" by (simp add: pow2_def N_def)
  from q have "x / pow2 k \<le> of_int N" "of_int (- N) \<le> x / pow2 k"
    unfolding p53 by linarith+
  then have "?n \<le> N" "- N \<le> ?n"
    by (simp_all only: round_even_le round_even_ge)
  then have "\<bar>real_of_int ?n\<bar> \<le> pow2 53" unfolding p53 by linarith
  then have "\<bar>of_int ?n * pow2 k\<bar> \<le> pow2 53 * pow2 k"
    by (simp only: abs_mult pow2_abs) (simp add: mult_right_mono)
  also have "\<dots> = pow2 (53 + k)" by (simp add: pow2_add)
  also have "\<dots> \<le> pow2 1023" using k(2) by (intro pow2_mono) simp
  also have "\<dots> < pow2 1024" using pow2_Suc [of 1023] pow2_pos [of 1023] by simp
  finally have "\<not> pow2 1024 \<le> \<bar>rnd64 x\<bar>" unfolding r by simp
  then show ?thesis by (simp add: round64_def r Let_def)
qed

lemma round64_abs_error:
  assumes "\<bar>x\<bar> < pow2 (e + 1)" and "- 1022 \<le> e" and "e \<le> 1022"
  shows "\<exists>y. round64 x = Num y \<and> \<bar>y - x\<bar> \<le> pow2 (e - 53)"
proof -
  have err: "\<bar>rnd64 x - x\<bar> \<le> pow2 (e - 53)" using assms(1,2) by (rule rnd64_abs_error)
  have "\<bar>rnd64 x\<bar> \<le> \<bar>x\<bar> + \<bar>rnd64 x - x\<bar>" by simp
  also have "\<dots> < pow2 (e + 1) + pow2 (e - 53)" using assms(1) err by simp
  also have "\<dots> \<le> pow2 (e + 1) + pow2 (e + 1)" by (intro add_left_mono pow2_mono) simp
  also have "\<dots> = pow2 (e + 2)" using pow2_Suc [of "e + 1"] by (simp add: add.assoc)
  also have "\<dots> \<le> pow2 1024" using assms(3) by (intro pow2_mono) simp
  finally have "\<not> pow2 1024 \<le> \<bar>rnd64 x\<bar>" by simp
  then have "round64 x = Num (rnd64 x)" by (simp add: round64_def Let_def)
  with err show ?thesis by blast
qed

lemma pow2_nat_Ints: "0 \<le> j \<Longrightarrow> pow2 j \<in> \<int>"
  by (simp add: pow2_def)

lemma rnd64_int:
  assumes "\<bar>n\<bar> < 2 ^ 53"
  shows "rnd64 (of_int n) = of_int n"
proof (cases "n = 0")
  case True
  then show ?thesis by (simp add: rnd64_def)
next
  case False
  let ?x = "real_of_int n"
  let ?k = "max (\<lfloor>log 2 \<bar>?x\<bar>\<rfloor> - 52) (- 1074)"
  from False have nz: "?x \<noteq> 0" by simp
  have "\<bar>?x\<bar> < pow2 53" using assms by (simp add: pow2_def flip: of_int_abs)
  with log2_bounds [OF nz] have "pow2 \<lfloor>log 2 \<bar>?x\<bar>\<rfloor> < pow2 53" by linarith
  then have "\<lfloor>log 2 \<bar>?x\<bar>\<rfloor> < 53" by (simp only: pow2_less_iff)
  then have k: "?k \<le> 0" by simp
  then have "pow2 (- ?k) \<in> \<int>" by (intro pow2_nat_Ints) simp
  then obtain m where m: "pow2 (- ?k) = of_int m" by (rule Ints_cases)
  have inv: "pow2 (- ?k) * pow2 ?k = 1" using pow2_add [of "- ?k" ?k] by (simp add: pow2_def)
  then have "?x / pow2 ?k = ?x * pow2 (- ?k)" by (simp add: field_simps)
  also have "\<dots> = of_int (n * m)" by (simp add: m)
  finally have "round_even (?x / pow2 ?k) = n * m" by (simp only: round_even_int)
  then have "rnd64 ?x = of_int (n * m) * pow2 ?k" using nz by (simp add: rnd64_def)
  also have "\<dots> = ?x * (pow2 (- ?k) * pow2 ?k)" by (simp add: m)
  finally show ?thesis by (simp add: inv)
qed

lemma round64_nat: "n < 2 ^ 53 \<Longrightarrow> round64 (real n) = Num (real n)"
proof -
  assume a: "n < 2 ^ 53"
  then have "\<bar>int n\<bar> < 2 ^ 53" by (simp add: nat_less_iff) 
  then have r: "rnd64 (real n) = real n" using rnd64_int [of "int n"] by simp
  have "real n < 2 ^ 53" using a by (metis of_nat_less_iff of_nat_numeral of_nat_power)
  also have "\<dots> < pow2 1024" by (simp add: pow2_def)
  finally show ?thesis by (simp add: round64_def r)
qed

lemma pow2_nonneg [simp]: "0 \<le> pow2 k"
  using pow2_pos [of k] by linarith



section \<open>Reading inside the buffer\<close>

lemma getUint16_in: "p + 2 \<le> length v \<Longrightarrow> getUint16 v p = Inr (u16 v p)"
  by (simp add: getUint16_def getUint_def u16_def)

lemma getUint32_in: "p + 4 \<le> length v \<Longrightarrow> getUint32 v p = Inr (u32 v p)"
  by (simp add: getUint32_def getUint_def u32_def)

lemma getInt32_in: "p + 4 \<le> length v \<Longrightarrow> getInt32 v p = Inr (to_signed 32 (u32 v p))"
  by (simp add: getInt32_def getUint_def u32_def rbind_def)

lemma getFloat32_in: "p + 4 \<le> length v \<Longrightarrow> getFloat32 v p = Inr (float32_value (u32 v p))"
  by (simp add: getFloat32_def getUint_def u32_def rbind_def)

lemma getUint_Inr: "getUint n v p = Inr x \<Longrightarrow> p + n \<le> length v \<and> x = le_value (take n (drop p v))"
  by (auto simp: getUint_def split: if_splits)

lemma rbind_Inr: "rbind m f = Inr y \<Longrightarrow> \<exists>x. m = Inr x \<and> f x = Inr y"
  by (cases m) (simp_all add: rbind_def)

lemma new_Uint8Array_Inr:
  "new_Uint8Array buffer off len = Inr a \<Longrightarrow> 0 \<le> len \<and> off + nat len \<le> length buffer"
  by (auto simp: new_Uint8Array_def split: if_splits)

lemma new_Uint8Array_frame:
  assumes "position + hs \<le> length view" "position + fs \<le> length view"
  shows "new_Uint8Array view (position + hs) (int (position + fs) - int (position + hs)) =
           (if fs < hs then Inl RangeError else Inr (take (fs - hs) (drop (position + hs) view)))"
proof (cases "fs < hs")
  case True
  then show ?thesis by (simp add: new_Uint8Array_def)
next
  case False
  then have "nat (int (position + fs) - int (position + hs)) = fs - hs" by simp
  moreover have "\<not> int (position + fs) - int (position + hs) < 0" using False by simp
  ultimately show ?thesis using False assms by (simp add: new_Uint8Array_def del: of_nat_add)
qed

lemma le_value_bound: "le_value bs < 256 ^ length bs"
proof (induction bs)
  case Nil
  show ?case by simp
next
  case (Cons b bs)
  have "unat b < 2 ^ LENGTH(8)" by (rule unsigned_less)
  then have "unat b < 256" by simp
  with Cons show ?case by simp
qed

lemma u32_bound: "u32 view p < 2 ^ 32"
proof -
  have "le_value (take 4 (drop p view)) < 256 ^ length (take 4 (drop p view))"
    by (rule le_value_bound)
  also have "\<dots> \<le> (256 :: nat) ^ 4" by (intro power_increasing) simp_all
  finally show ?thesis by (simp add: u32_def)
qed

section \<open>One frame\<close>

lemmas offset_defs = surveyTypeOffset_def minRangeOffset_def maxRangeOffset_def
  waterDepthOffset_def xOffset_def yOffset_def timeOffset_def frameSizeOffset_def
  frameHeaderSize_def

lemma readFields_in:
  assumes "position + frameHeaderSize isSl3 \<le> length view"
  shows "readFields view position isSl3 =
           Inr (if u16 view (position + surveyTypeOffset isSl3) \<noteq> 0 then None
                else Some (fields_at view position isSl3))"
proof (cases isSl3)
  case True
  with assms have "position + 168 \<le> length view" by (simp add: frameHeaderSize_def)
  then show ?thesis using True
    by (simp add: readFields_def rbind_def getUint16_in getUint32_in getInt32_in getFloat32_in
        fields_at_def meters_at_def offset_defs)
next
  case False
  with assms have "position + 144 \<le> length view" by (simp add: frameHeaderSize_def)
  then show ?thesis using False
    by (simp add: readFields_def rbind_def getUint16_in getUint32_in getInt32_in getFloat32_in
        fields_at_def meters_at_def offset_defs)
qed

lemma readFields_Some:
  assumes "readFields view position isSl3 = Inr (Some f)"
  shows "position + frameSizeOffset isSl3 + 2 \<le> length view"
    and "f_frame_size f = frame_size_at view position isSl3"
    and "f_header_size f = frameHeaderSize isSl3"
proof -
  have "position + frameSizeOffset isSl3 + 2 \<le> length view
      \<and> f_frame_size f = frame_size_at view position isSl3
      \<and> f_header_size f = frameHeaderSize isSl3"
  proof (cases isSl3)
    case True
    with assms show ?thesis
      unfolding readFields_def
      by (auto dest!: rbind_Inr getUint_Inr
          simp: getUint16_def frame_size_at_def u16_def frameSizeOffset_def frameHeaderSize_def
          split: if_splits)
  next
    case False
    with assms show ?thesis
      unfolding readFields_def
      by (auto dest!: rbind_Inr getUint_Inr
          simp: getUint16_def frame_size_at_def u16_def frameSizeOffset_def frameHeaderSize_def
          split: if_splits)
  qed
  then show "position + frameSizeOffset isSl3 + 2 \<le> length view"
    and "f_frame_size f = frame_size_at view position isSl3"
    and "f_header_size f = frameHeaderSize isSl3" by simp_all
qed

lemma length_signal_at:
  "position + frame_size_at view position isSl3 \<le> length view \<Longrightarrow>
   length (signal_at view position isSl3) = signal_length_at view position isSl3"
  by (auto simp: signal_at_def signal_length_at_def)

lemma parseFrame_cases:
  assumes hdr: "position + frameHeaderSize isSl3 \<le> length view"
    and fit: "position + frame_size_at view position isSl3 \<le> length view"
  shows "parseFrame view position isSl3 startTime =
     (if survey_type_at view position isSl3 \<noteq> 0 then Inr None
      else if f_x (fields_at view position isSl3) = 0 \<or> f_y (fields_at view position isSl3) = 0
        then Inr None
      else if frame_size_at view position isSl3 < frameHeaderSize isSl3 then Inl RangeError
      else if jle (f_max_range (fields_at view position isSl3))
                  (f_min_range (fields_at view position isSl3)) then Inr None
      else if jlt (bottom_index_at view position isSl3) (Num 0)
            \<or> jge (bottom_index_at view position isSl3)
                   (Num (real (signal_length_at view position isSl3)))
        then Inr None
      else Inr (Some (frame_at view position isSl3 startTime)))"
proof -
  have fs: "f_frame_size (fields_at view position isSl3) = frame_size_at view position isSl3"
    and hs: "f_header_size (fields_at view position isSl3) = frameHeaderSize isSl3"
    by (simp_all add: fields_at_def frame_size_at_def)
  have arr: "new_Uint8Array view (position + frameHeaderSize isSl3)
        (int (position + frame_size_at view position isSl3) - int (position + frameHeaderSize isSl3)) =
      (if frame_size_at view position isSl3 < frameHeaderSize isSl3 then Inl RangeError
       else Inr (signal_at view position isSl3))"
    using new_Uint8Array_frame [OF hdr fit] by (simp add: signal_at_def signal_length_at_def)
  have len: "length (signal_at view position isSl3) = signal_length_at view position isSl3"
    by (rule length_signal_at [OF fit])
  show ?thesis
    unfolding parseFrame_def readFields_in [OF hdr] buildFrame_def
    by (simp add: rbind_def survey_type_at_def fs hs arr len Let_def frame_at_def
        bottom_index_at_def del: of_nat_add)
qed

lemma parseFrame_Some_guards:
  assumes "parseFrame view position isSl3 startTime = Inr (Some r)"
  shows "position + frameHeaderSize isSl3 \<le> length view"
    and "position + frame_size_at view position isSl3 \<le> length view"
proof -
  from assms obtain f where rf: "readFields view position isSl3 = Inr (Some f)"
    and bf: "buildFrame view position startTime f = Inr (Some r)"
    by (auto simp: parseFrame_def dest!: rbind_Inr split: option.splits)
  note fs = readFields_Some(2) [OF rf] and hs = readFields_Some(3) [OF rf]
  from bf obtain a where
    "new_Uint8Array view (position + frameHeaderSize isSl3)
       (int (position + frame_size_at view position isSl3) - int (position + frameHeaderSize isSl3)) = Inr a"
    by (auto simp: buildFrame_def Let_def fs hs dest!: rbind_Inr split: if_splits simp del: of_nat_add)
  from new_Uint8Array_Inr [OF this]
  show "position + frameHeaderSize isSl3 \<le> length view"
    and "position + frame_size_at view position isSl3 \<le> length view"
    by auto
qed

lemma parseFrame_Some:
  assumes hdr: "position + frameHeaderSize isSl3 \<le> length view"
    and fit: "position + frame_size_at view position isSl3 \<le> length view"
    and some: "parseFrame view position isSl3 startTime = Inr (Some r)"
  shows "r = frame_at view position isSl3 startTime"
    and "survey_type_at view position isSl3 = 0"
    and "f_x (fields_at view position isSl3) \<noteq> 0"
    and "f_y (fields_at view position isSl3) \<noteq> 0"
    and "frameHeaderSize isSl3 \<le> frame_size_at view position isSl3"
    and "\<not> jle (f_max_range (fields_at view position isSl3))
                  (f_min_range (fields_at view position isSl3))"
    and "\<not> jlt (bottom_index_at view position isSl3) (Num 0)"
    and "\<not> jge (bottom_index_at view position isSl3)
                   (Num (real (signal_length_at view position isSl3)))"
  using some unfolding parseFrame_cases [OF hdr fit]
  by (auto split: if_splits)

lemma jfloor_Num: "jfloor a = Num v \<Longrightarrow> v = of_int \<lfloor>v\<rfloor>"
  by (cases a) auto

lemma bottom_index_accepted:
  assumes lo: "\<not> jlt b (Num 0)" and hi: "\<not> jge b (Num (real L))" and fl: "b = jfloor a"
  shows "b = NaN \<or> (\<exists>i<L. b = Num (real i))"
proof (cases b)
  case NaN
  then show ?thesis by simp
next
  case NInf
  with lo show ?thesis by simp
next
  case PInf
  with hi show ?thesis by (simp add: jge_def)
next
  case (Num v)
  from lo hi have v: "0 \<le> v" "v < real L" unfolding Num jge_def by auto
  from fl have "v = of_int \<lfloor>v\<rfloor>" unfolding Num by (rule jfloor_Num [OF sym])
  with v have "v = real (nat \<lfloor>v\<rfloor>)" "nat \<lfloor>v\<rfloor> < L"
    by (auto simp: floor_less_iff nat_less_iff)
  with Num show ?thesis by blast
qed

section \<open>The timestamp\<close>

text \<open>
  The time value of the \<^verbatim>\<open>Date\<close> built from 32-bit seconds and a 32-bit millisecond
  offset: three roundings and a truncation leave it within one millisecond below the
  exact sum.
\<close>

lemma timestamp_within_a_millisecond:
  assumes tb: "tb < 2 ^ 32" and ms: "ms < 2 ^ 32"
  shows "new_Date (jmul (jadd (Num (real tb)) (jdiv (Num (real ms)) (Num 1000))) (Num 1000))
           = Num (real (tb * 1000 + ms))
       \<or> new_Date (jmul (jadd (Num (real tb)) (jdiv (Num (real ms)) (Num 1000))) (Num 1000))
           = Num (real (tb * 1000 + ms) - 1)"
proof (cases "tb * 1000 + ms = 0")
  case True
  then show ?thesis by (simp add: new_Date_def)
next
  case False
  then have "1 \<le> tb * 1000 + ms" by linarith
  then have N1: "1 \<le> real (tb * 1000 + ms)"
    using of_nat_mono [of 1 "tb * 1000 + ms", where 'a = real] by simp
  from tb ms have rtb: "real tb < 4294967296" and rms: "real ms < 4294967296" by simp_all
  have tb0: "0 \<le> real tb" and ms0: "0 \<le> real ms" by simp_all
  let ?s = "real ms / 1000"
  have "\<bar>?s\<bar> < pow2 (22 + 1)" using rms ms0 by (simp add: pow2_def)
  from round64_abs_error [OF this] obtain S where
    S: "round64 ?s = Num S" and Se: "\<bar>S - ?s\<bar> \<le> pow2 (22 - 53)" by auto
  let ?t = "real tb + S"
  from Se have Se': "\<bar>S - ?s\<bar> \<le> 1 / 2147483648" by (simp add: pow2_def)
  have "\<bar>?t\<bar> < pow2 (32 + 1)" using rtb tb0 rms ms0 Se' by (simp add: pow2_def abs_if split: if_splits)
  from round64_abs_error [OF this] obtain T where
    T: "round64 ?t = Num T" and Te: "\<bar>T - ?t\<bar> \<le> pow2 (32 - 53)" by auto
  from Te have Te': "\<bar>T - ?t\<bar> \<le> 1 / 2097152" by (simp add: pow2_def)
  let ?u = "T * 1000"
  have "\<bar>?u\<bar> < pow2 (42 + 1)" using rtb tb0 rms ms0 Se' Te'
    by (simp add: pow2_def abs_if split: if_splits)
  from round64_abs_error [OF this] obtain P where
    P: "round64 ?u = Num P" and Pe: "\<bar>P - ?u\<bar> \<le> pow2 (42 - 53)" by auto
  from Pe have Pe': "\<bar>P - ?u\<bar> \<le> 1 / 2048" by (simp add: pow2_def)
  let ?N = "real (tb * 1000 + ms)"
  have N: "?N = real tb * 1000 + real ms" by simp
  have lo: "?N - 1 < P" and hi: "P < ?N + 1"
    using Se' Te' Pe' unfolding N by (simp_all add: abs_if split: if_splits)
  have val: "jmul (jadd (Num (real tb)) (jdiv (Num (real ms)) (Num 1000))) (Num 1000) = Num P"
    by (simp add: S T P)
  from lo N1 have P0: "0 \<le> P" by linarith
  have "\<bar>P\<bar> \<le> 8640000000000000" using P0 hi rtb rms unfolding N by linarith
  then have date: "new_Date (Num P) = Num (of_int \<lfloor>P\<rfloor>)" using P0 by (simp add: new_Date_def)
  have "\<lfloor>P\<rfloor> = int (tb * 1000 + ms) \<or> \<lfloor>P\<rfloor> = int (tb * 1000 + ms) - 1"
  proof (cases "?N \<le> P")
    case True
    with hi have "\<lfloor>P\<rfloor> = int (tb * 1000 + ms)" by (intro floor_unique) simp_all
    then show ?thesis by simp
  next
    case False
    with lo have "\<lfloor>P\<rfloor> = int (tb * 1000 + ms) - 1" by (intro floor_unique) simp_all
    then show ?thesis by simp
  qed
  then have "of_int \<lfloor>P\<rfloor> = ?N \<or> of_int \<lfloor>P\<rfloor> = ?N - 1"
    by (metis of_int_of_nat_eq of_int_diff of_int_1)
  then show ?thesis unfolding val date by simp
qed

section \<open>The coordinates\<close>








section \<open>The density sampler\<close>

lemma fold_average_step_NaN:
  "fold (average_step array NaN) [0..<k] st = st"
  by (induction k) (simp_all add: average_step_def)

lemma getAverage_NaN: "avg (getAverage array NaN k) = Num 0"
  by (simp add: getAverage_def fold_average_step_NaN)

section \<open>The frame scan\<close>

lemma scan_unfold:
  "scanFrames view isSl3 startTime position data =
     (if length view - position < frameHeaderSize isSl3 then Inr data
      else if u16 view (position + frameSizeOffset isSl3) = 0
              \<or> length view < position + u16 view (position + frameSizeOffset isSl3)
           then Inr data
           else rbind (parseFrame view position isSl3 startTime)
                  (\<lambda>frameData. scanFrames view isSl3 startTime
                      (position + u16 view (position + frameSizeOffset isSl3))
                      (push_frame data frameData)))"
proof (cases "length view - position < frameHeaderSize isSl3")
  case True
  then show ?thesis
    by (subst scanFrames.simps) (auto simp: frameHeaderSize_def split: if_splits)
next
  case False
  then have "position + frameSizeOffset isSl3 + 2 \<le> length view" "position < length view"
    "\<not> length view < position + frameHeaderSize isSl3"
    by (auto simp: frameHeaderSize_def frameSizeOffset_def split: if_splits)
  with False show ?thesis
    by (subst scanFrames.simps) (simp add: getUint16_in rbind_def)
qed

lemma push_frame_None [simp]: "push_frame data None = data"
  by (simp add: push_frame_def)

lemma set_push_frame:
  "r \<in> set (push_frame data fd) \<Longrightarrow>
     r \<in> set data \<or> (fd = Some r \<and> jgt (water_depth r) (Num 0))"
  by (auto simp: push_frame_def split: option.splits if_splits)

lemma scan_records:
  "scanFrames view isSl3 startTime position data = Inr recs \<Longrightarrow> r \<in> set recs \<Longrightarrow>
     r \<in> set data \<or>
     (\<exists>p. position \<le> p \<and> p + frameHeaderSize isSl3 \<le> length view
          \<and> p + frame_size_at view p isSl3 \<le> length view
          \<and> parseFrame view p isSl3 startTime = Inr (Some r)
          \<and> jgt (water_depth r) (Num 0))"
proof (induction view isSl3 startTime position data rule: scanFrames.induct)
  case (1 view isSl3 startTime position data)
  let ?fs = "u16 view (position + frameSizeOffset isSl3)"
  show ?case
  proof (cases "length view - position < frameHeaderSize isSl3
                \<or> ?fs = 0 \<or> length view < position + ?fs")
    case True
    with "1.prems" have "recs = data"
      by (subst (asm) scan_unfold) (auto split: if_splits)
    with "1.prems" show ?thesis by simp
  next
    case False
    then have hdr: "position + frameHeaderSize isSl3 \<le> length view"
      and fit: "position + ?fs \<le> length view" and nz: "?fs \<noteq> 0" by auto
    from hdr have lt: "position < length view" "\<not> length view < position + frameHeaderSize isSl3"
      by (auto simp: frameHeaderSize_def split: if_splits)
    from hdr have g: "getUint16 view (position + frameSizeOffset isSl3) = Inr ?fs"
      by (intro getUint16_in) (auto simp: frameHeaderSize_def frameSizeOffset_def split: if_splits)
    from "1.prems"(1) False obtain fd where
      pf: "parseFrame view position isSl3 startTime = Inr fd"
      and rest: "scanFrames view isSl3 startTime (position + ?fs) (push_frame data fd) = Inr recs"
      by (subst (asm) scan_unfold) (auto simp: rbind_def split: sum.splits)
    have "r \<in> set (push_frame data fd) \<or>
      (\<exists>p. position + ?fs \<le> p \<and> p + frameHeaderSize isSl3 \<le> length view
          \<and> p + frame_size_at view p isSl3 \<le> length view
          \<and> parseFrame view p isSl3 startTime = Inr (Some r)
          \<and> jgt (water_depth r) (Num 0))"
      using "1.IH" [OF _ _ g _ pf rest "1.prems"(2)] lt nz fit by auto
    then show ?thesis
    proof
      assume "r \<in> set (push_frame data fd)"
      from set_push_frame [OF this] show ?thesis
      proof
        assume "r \<in> set data" then show ?thesis by simp
      next
        assume "fd = Some r \<and> jgt (water_depth r) (Num 0)"
        with pf hdr fit show ?thesis
          by (intro disjI2 exI [of _ position]) (simp add: frame_size_at_def)
      qed
    next
      assume "\<exists>p. position + ?fs \<le> p \<and> p + frameHeaderSize isSl3 \<le> length view
          \<and> p + frame_size_at view p isSl3 \<le> length view
          \<and> parseFrame view p isSl3 startTime = Inr (Some r)
          \<and> jgt (water_depth r) (Num 0)"
      then obtain p where "position + ?fs \<le> p" and r: "p + frameHeaderSize isSl3 \<le> length view"
          "p + frame_size_at view p isSl3 \<le> length view"
          "parseFrame view p isSl3 startTime = Inr (Some r)"
          "jgt (water_depth r) (Num 0)" by blast
      then have "position \<le> p" by simp
      with r show ?thesis by blast
    qed
  qed
qed

lemma parseSonarFile_cases:
  "parseSonarFile arrayBuffer fileName =
     (if length arrayBuffer < 4 then Inl RangeError
      else if length arrayBuffer \<le> 8 then Inr []
      else if length arrayBuffer < 8 + firstFrameHardWareTimeOffset (isSl3_of fileName) + 4
        then Inl RangeError
      else scanFrames arrayBuffer (isSl3_of fileName)
             (u32 arrayBuffer (8 + firstFrameHardWareTimeOffset (isSl3_of fileName))) 8 [])"
  by (simp add: parseSonarFile_def getInt16_def getUint32_def getUint_def rbind_def Let_def
      u32_def)

section \<open>The file name\<close>

lemma split_dot_nonempty: "split_dot s \<noteq> []"
  by (induction s) (auto split: list.splits)

lemma split_dot_no_dot: "CHR ''.'' \<notin> set s \<Longrightarrow> split_dot s = [s]"
  by (induction s) auto

lemma split_dot_at_dot: "split_dot (a @ CHR ''.'' # b) = split_dot a @ split_dot b"
proof (induction a)
  case Nil
  show ?case by simp
next
  case (Cons c a)
  obtain w ws where "split_dot a = w # ws"
    using split_dot_nonempty [of a] by (cases "split_dot a") auto
  with Cons show ?case by simp
qed

lemma final_suffix_no_dot: "CHR ''.'' \<notin> set s \<Longrightarrow> final_suffix s = s"
proof -
  assume "CHR ''.'' \<notin> set s"
  then have "\<forall>c \<in> set (rev s). c \<noteq> CHR ''.''" by auto
  then have "takeWhile (\<lambda>c. c \<noteq> CHR ''.'') (rev s) = rev s"
    by (simp only: takeWhile_eq_all_conv)
  then show ?thesis unfolding final_suffix_def by (simp only: rev_rev_ident)
qed

lemma final_suffix_at_dot: "final_suffix (a @ CHR ''.'' # b) = final_suffix b"
proof -
  have "takeWhile (\<lambda>c. c \<noteq> CHR ''.'') (rev b @ CHR ''.'' # rev a)
      = takeWhile (\<lambda>c. c \<noteq> CHR ''.'') (rev b)"
  proof (induction "rev b" arbitrary: b)
    case Nil
    then show ?case by simp
  next
    case (Cons x xs)
    from Cons(2) [symmetric] Cons(1) [of "rev xs"] show ?case by simp
  qed
  then show ?thesis by (simp add: final_suffix_def)
qed

lemma last_split_dot: "last (split_dot s) = final_suffix s"
proof (cases "CHR ''.'' \<in> set s")
  case False
  then show ?thesis by (simp add: split_dot_no_dot final_suffix_no_dot)
next
  case True
  then obtain a b where s: "s = a @ CHR ''.'' # b" and b: "CHR ''.'' \<notin> set b"
    by (auto dest: split_list_last)
  have "final_suffix s = b"
    unfolding s final_suffix_at_dot by (rule final_suffix_no_dot [OF b])
  moreover have "last (split_dot s) = b"
    by (simp add: s split_dot_at_dot split_dot_no_dot [OF b])
  ultimately show ?thesis by simp
qed

lemma sl2_is_variant_B: "isSl3_of ''track.sl2'' = False"
  by code_simp

lemma sl3_is_variant_A: "isSl3_of ''track.sl3'' = True"
  by code_simp

section \<open>The sample logs, decoded\<close>

lemma take2_nth: "p + 2 \<le> length v \<Longrightarrow> take 2 (drop p v) = [v ! p, v ! (p + 1)]"
proof -
  assume a: "p + 2 \<le> length v"
  then have "drop p v = v ! p # drop (Suc p) v"
    "drop (Suc p) v = v ! (Suc p) # drop (Suc (Suc p)) v"
    by (simp_all add: Cons_nth_drop_Suc)
  then show ?thesis by (simp add: numeral_2_eq_2)
qed

lemma take4_nth:
  "p + 4 \<le> length v \<Longrightarrow> take 4 (drop p v) = [v ! p, v ! (p + 1), v ! (p + 2), v ! (p + 3)]"
proof -
  assume a: "p + 4 \<le> length v"
  then have "take 2 (drop p v) = [v ! p, v ! (p + 1)]"
    "take 2 (drop (p + 2) v) = [v ! (p + 2), v ! (p + 2 + 1)]"
    by (simp_all add: take2_nth)
  moreover have "take 4 (drop p v) = take 2 (drop p v) @ take 2 (drop (p + 2) v)"
    using take_add [of 2 2 "drop p v"] by (simp add: add.commute)
  ultimately show ?thesis by (simp add: numeral_Bit1 add.assoc)
qed

lemma u16_nth: "p + 2 \<le> length v \<Longrightarrow> u16 v p = unat (v ! p) + 256 * unat (v ! (p + 1))"
  by (simp add: u16_def take2_nth)

lemma u32_nth:
  "p + 4 \<le> length v \<Longrightarrow>
   u32 v p = unat (v ! p) + 256 * (unat (v ! (p + 1)) + 256 * (unat (v ! (p + 2)) + 256 * unat (v ! (p + 3))))"
  by (simp add: u32_def take4_nth)

lemma f32_values:
  "float32_value 0x42800000 = Num 64"
  "float32_value 0x42400000 = Num 48"
  "float32_value 0 = Num 0"
  "float32_value 0x7FC00000 = NaN"
  by (simp_all add: float32_value_def)


subsection \<open>The arithmetic of the samples\<close>

lemma feet_value: "FEET_TO_METERS = Num (5490788665690109 * pow2 (- 54))"
  unfolding FEET_TO_METERS_def
  by (subst round64_binade [where k = "- 54"]) (simp_all add: pow2_def round_even_def)

lemma meters_0: "jmul (Num 0) FEET_TO_METERS = Num 0"
  by (simp add: feet_value)

lemma meters_64: "jmul (Num 64) FEET_TO_METERS = Num (5490788665690109 * pow2 (- 48))"
  unfolding feet_value jmul.simps
  by (subst round64_binade [where k = "- 48"]) (simp_all add: pow2_def round_even_def)

lemma meters_48: "jmul (Num 48) FEET_TO_METERS = Num (8236182998535164 * pow2 (- 49))"
  unfolding feet_value jmul.simps
  by (subst round64_binade [where k = "- 49"]) (simp_all add: pow2_def round_even_def)

lemma sample_range:
  "jsub (Num (5490788665690109 * pow2 (- 48))) (Num 0) = Num (5490788665690109 * pow2 (- 48))"
  unfolding jsub_def jneg.simps jadd.simps
  by (subst round64_binade [where k = "- 48"]) (simp_all add: pow2_def round_even_def)

lemma sample_quotient:
  "jdiv (Num 10) (Num (5490788665690109 * pow2 (- 48))) = Num (4617371665201050 * pow2 (- 53))"
proof -
  have "round64 (10 / (5490788665690109 * pow2 (- 48))) = Num (4617371665201050 * pow2 (- 53))"
    by (subst round64_binade [where k = "- 53"]) (simp_all add: pow2_def round_even_def)
  then show ?thesis by simp
qed

lemma sample_product:
  "jmul (Num (4617371665201050 * pow2 (- 53))) (Num (8236182998535164 * pow2 (- 49)))
     = Num (8444249301319681 * pow2 (- 50))"
  unfolding jmul.simps
  by (subst round64_binade [where k = "- 50"]) (simp_all add: pow2_def round_even_def)

lemma sample_floor: "jfloor (Num (8444249301319681 * pow2 (- 50))) = Num 7"
  by (simp add: pow2_def)

lemma sample_bottom_index:
  "bottom_index_of 10 (Num (5490788665690109 * pow2 (- 48))) (Num 0)
     (Num (8236182998535164 * pow2 (- 49))) = Num 7"
  unfolding bottom_index_of_def
  by (simp only: of_nat_numeral sample_range sample_quotient sample_product sample_floor)

lemma sample_seconds: "jdiv (Num 5000) (Num 1000) = Num 5"
  using round64_nat [of 5] by simp

lemma sample_timestamp:
  "new_Date (jmul (jadd (Num 1700000000) (Num 5)) (Num 1000)) = Num 1700000005000"
  using round64_nat [of 1700000005] round64_nat [of 1700000005000]
  by (simp add: new_Date_def)

subsection \<open>The one-frame log\<close>

lemma length_one_frame_log: "length one_frame_log = 162"
  by (simp add: one_frame_log_def)

lemma one_frame_values:
  "u32 one_frame_log 68 = 1700000000"
  "frame_size_at one_frame_log 8 False = 154"
  "survey_type_at one_frame_log 8 False = 0"
  "u32 one_frame_log 52 = 0x42800000"
  "u32 one_frame_log 48 = 0"
  "u32 one_frame_log 72 = 0x42400000"
  "u32 one_frame_log 116 = 1000000"
  "u32 one_frame_log 120 = 2000000"
  "u32 one_frame_log 148 = 5000"
  by (simp_all add: u32_nth u16_nth frame_size_at_def survey_type_at_def offset_defs
      one_frame_log_def)

lemma one_frame_fields:
  "fields_at one_frame_log 8 False =
     \<lparr> f_min_range = Num 0,
       f_max_range = Num (5490788665690109 * pow2 (- 48)),
       f_water_depth = Num (8236182998535164 * pow2 (- 49)),
       f_x = 1000000, f_y = 2000000, f_secondsOffset = Num 5,
       f_frame_size = 154, f_header_size = 144 \<rparr>"
  using one_frame_values
  by (simp add: fields_at_def meters_at_def offset_defs f32_values meters_0 meters_64
      meters_48 sample_seconds to_signed_def frame_size_at_def
      del: jmul_Num jdiv_Num jadd_Num)

lemma one_frame_bottom_index: "bottom_index_at one_frame_log 8 False = Num 7"
  using one_frame_values
  by (simp add: bottom_index_at_def one_frame_fields signal_length_at_def frameHeaderSize_def
      sample_bottom_index)

lemma one_frame_decoded:
  "parseFrame one_frame_log 8 False 1700000000
     = Inr (Some (frame_at one_frame_log 8 False 1700000000))"
  using one_frame_values
  by (subst parseFrame_cases)
     (simp_all add: length_one_frame_log frameHeaderSize_def one_frame_fields
        one_frame_bottom_index signal_length_at_def jge_def)

lemma one_frame_parse:
  "parseSonarFile one_frame_log ''track.sl2'' = Inr [frame_at one_frame_log 8 False 1700000000]"
proof -
  have "scanFrames one_frame_log False 1700000000 162 [frame_at one_frame_log 8 False 1700000000]
        = Inr [frame_at one_frame_log 8 False 1700000000]"
    by (subst scan_unfold) (simp add: length_one_frame_log frameHeaderSize_def)
  moreover have "jgt (water_depth (frame_at one_frame_log 8 False 1700000000)) (Num 0)"
    by (simp add: frame_at_def one_frame_fields jgt_def Let_def)
  ultimately have "scanFrames one_frame_log False 1700000000 8 []
        = Inr [frame_at one_frame_log 8 False 1700000000]"
    using one_frame_values(2)
    by (subst scan_unfold)
       (simp add: length_one_frame_log frameHeaderSize_def frame_size_at_def one_frame_decoded
          rbind_def push_frame_def)
  then show ?thesis
    by (simp add: parseSonarFile_cases sl2_is_variant_B length_one_frame_log
        firstFrameHardWareTimeOffset_def one_frame_values)
qed

subsection \<open>The log with a NaN range\<close>

lemma length_nan_range_log: "length nan_range_log = 162"
  by (simp add: nan_range_log_def one_frame_log_def)

lemma nan_range_values:
  "u32 nan_range_log 68 = 1700000000"
  "frame_size_at nan_range_log 8 False = 154"
  "survey_type_at nan_range_log 8 False = 0"
  "u32 nan_range_log 52 = 0x7FC00000"
  "u32 nan_range_log 48 = 0"
  "u32 nan_range_log 72 = 0x42400000"
  "u32 nan_range_log 116 = 1000000"
  "u32 nan_range_log 120 = 2000000"
  "u32 nan_range_log 148 = 5000"
  by (simp_all add: u32_nth u16_nth frame_size_at_def survey_type_at_def offset_defs
      nan_range_log_def one_frame_log_def)

lemma nan_range_fields:
  "fields_at nan_range_log 8 False =
     \<lparr> f_min_range = Num 0, f_max_range = NaN,
       f_water_depth = Num (8236182998535164 * pow2 (- 49)),
       f_x = 1000000, f_y = 2000000, f_secondsOffset = Num 5,
       f_frame_size = 154, f_header_size = 144 \<rparr>"
  using nan_range_values
  by (simp add: fields_at_def meters_at_def offset_defs f32_values meters_0 meters_48
      sample_seconds to_signed_def frame_size_at_def
      del: jmul_Num jdiv_Num jadd_Num)

lemma nan_range_bottom_index: "bottom_index_at nan_range_log 8 False = NaN"
  by (simp add: bottom_index_at_def nan_range_fields bottom_index_of_def jsub_def)

lemma nan_range_decoded:
  "parseFrame nan_range_log 8 False 1700000000
     = Inr (Some (frame_at nan_range_log 8 False 1700000000))"
  using nan_range_values
  by (subst parseFrame_cases)
     (simp_all add: length_nan_range_log frameHeaderSize_def nan_range_fields
        nan_range_bottom_index jge_def)

lemma nan_range_parse:
  "parseSonarFile nan_range_log ''track.sl2'' = Inr [frame_at nan_range_log 8 False 1700000000]"
proof -
  have "scanFrames nan_range_log False 1700000000 162 [frame_at nan_range_log 8 False 1700000000]
        = Inr [frame_at nan_range_log 8 False 1700000000]"
    by (subst scan_unfold) (simp add: length_nan_range_log frameHeaderSize_def)
  moreover have "jgt (water_depth (frame_at nan_range_log 8 False 1700000000)) (Num 0)"
    by (simp add: frame_at_def nan_range_fields jgt_def Let_def)
  ultimately have "scanFrames nan_range_log False 1700000000 8 []
        = Inr [frame_at nan_range_log 8 False 1700000000]"
    using nan_range_values(2)
    by (subst scan_unfold)
       (simp add: length_nan_range_log frameHeaderSize_def frame_size_at_def nan_range_decoded
          rbind_def push_frame_def)
  then show ?thesis
    by (simp add: parseSonarFile_cases sl2_is_variant_B length_nan_range_log
        firstFrameHardWareTimeOffset_def nan_range_values)
qed

subsection \<open>The log with a frame shorter than its header\<close>

lemma length_short_frame_log: "length short_frame_log = 162"
  by (simp add: short_frame_log_def one_frame_log_def)

lemma short_frame_values:
  "u32 short_frame_log 68 = 1700000000"
  "frame_size_at short_frame_log 8 False = 100"
  "survey_type_at short_frame_log 8 False = 0"
  "u32 short_frame_log 116 = 1000000"
  "u32 short_frame_log 120 = 2000000"
  by (simp_all add: u32_nth u16_nth frame_size_at_def survey_type_at_def offset_defs
      short_frame_log_def one_frame_log_def)

lemma short_frame_raises:
  "parseFrame short_frame_log 8 False 1700000000 = Inl RangeError"
  using short_frame_values
  by (subst parseFrame_cases)
     (simp_all add: length_short_frame_log fields_at_def offset_defs to_signed_def)

lemma short_frame_parse: "parseSonarFile short_frame_log ''track.sl2'' = Inl RangeError"
proof -
  have "scanFrames short_frame_log False 1700000000 8 [] = Inl RangeError"
    using short_frame_values(2)
    by (subst scan_unfold)
       (simp add: length_short_frame_log frameHeaderSize_def frame_size_at_def
          short_frame_raises rbind_def)
  then show ?thesis
    by (simp add: parseSonarFile_cases sl2_is_variant_B length_short_frame_log
        firstFrameHardWareTimeOffset_def short_frame_values)
qed

subsection \<open>The two-frame log\<close>

lemma length_two_frame_log: "length two_frame_log = 306"
  by (simp add: two_frame_log_def)

lemma two_frame_values:
  "u32 two_frame_log 68 = 1700000000"
  "frame_size_at two_frame_log 8 False = 144"
  "survey_type_at two_frame_log 8 False = 1"
  "frame_size_at two_frame_log 152 False = 154"
  "survey_type_at two_frame_log 152 False = 0"
  "u32 two_frame_log 196 = 0x42800000"
  "u32 two_frame_log 192 = 0"
  "u32 two_frame_log 216 = 0x42400000"
  "u32 two_frame_log 260 = 1000000"
  "u32 two_frame_log 264 = 2000000"
  "u32 two_frame_log 292 = 5000"
  "u32 two_frame_log 212 = 255"
  by (simp_all add: u32_nth u16_nth frame_size_at_def survey_type_at_def offset_defs
      two_frame_log_def)

lemma two_frame_fields:
  "fields_at two_frame_log 152 False =
     \<lparr> f_min_range = Num 0,
       f_max_range = Num (5490788665690109 * pow2 (- 48)),
       f_water_depth = Num (8236182998535164 * pow2 (- 49)),
       f_x = 1000000, f_y = 2000000, f_secondsOffset = Num 5,
       f_frame_size = 154, f_header_size = 144 \<rparr>"
  using two_frame_values
  by (simp add: fields_at_def meters_at_def offset_defs f32_values meters_0 meters_64
      meters_48 sample_seconds to_signed_def frame_size_at_def
      del: jmul_Num jdiv_Num jadd_Num)

lemma two_frame_bottom_index: "bottom_index_at two_frame_log 152 False = Num 7"
  using two_frame_values
  by (simp add: bottom_index_at_def two_frame_fields signal_length_at_def frameHeaderSize_def
      sample_bottom_index)

lemma two_frame_first_rejected: "parseFrame two_frame_log 8 False 1700000000 = Inr None"
  using two_frame_values
  by (subst parseFrame_cases) (simp_all add: length_two_frame_log frameHeaderSize_def)

lemma two_frame_second_decoded:
  "parseFrame two_frame_log 152 False 1700000000
     = Inr (Some (frame_at two_frame_log 152 False 1700000000))"
  using two_frame_values
  by (subst parseFrame_cases)
     (simp_all add: length_two_frame_log frameHeaderSize_def two_frame_fields
        two_frame_bottom_index signal_length_at_def jge_def)

lemma two_frame_scan_second:
  "scanFrames two_frame_log False 1700000000 152 []
     = Inr [frame_at two_frame_log 152 False 1700000000]"
proof -
  have "scanFrames two_frame_log False 1700000000 306 [frame_at two_frame_log 152 False 1700000000]
        = Inr [frame_at two_frame_log 152 False 1700000000]"
    by (subst scan_unfold) (simp add: length_two_frame_log frameHeaderSize_def)
  moreover have "jgt (water_depth (frame_at two_frame_log 152 False 1700000000)) (Num 0)"
    by (simp add: frame_at_def two_frame_fields jgt_def Let_def)
  ultimately show ?thesis
    using two_frame_values(4)
    by (subst scan_unfold)
       (simp add: length_two_frame_log frameHeaderSize_def frame_size_at_def
          two_frame_second_decoded rbind_def push_frame_def)
qed

lemma two_frame_parse:
  "parseSonarFile two_frame_log ''track.sl2'' = Inr [frame_at two_frame_log 152 False 1700000000]"
proof -
  have "scanFrames two_frame_log False 1700000000 8 []
        = Inr [frame_at two_frame_log 152 False 1700000000]"
    using two_frame_values(2)
    by (subst scan_unfold)
       (simp add: length_two_frame_log frameHeaderSize_def frame_size_at_def
          two_frame_first_rejected rbind_def two_frame_scan_second)
  then show ?thesis
    by (simp add: parseSonarFile_cases sl2_is_variant_B length_two_frame_log
        firstFrameHardWareTimeOffset_def two_frame_values)
qed

lemma two_frame_timestamp:
  "timestamp (frame_at two_frame_log 152 False 1700000000) = Num 1700000005000"
  using sample_timestamp
  by (simp add: frame_at_def Let_def two_frame_fields del: jmul_Num jdiv_Num jadd_Num)

subsection \<open>The short frame with equal ranges\<close>

lemma length_flat_short_frame_log: "length flat_short_frame_log = 162"
  by (simp add: flat_short_frame_log_def one_frame_log_def)

lemma flat_short_frame_values:
  "u32 flat_short_frame_log 68 = 1700000000"
  "frame_size_at flat_short_frame_log 8 False = 100"
  "survey_type_at flat_short_frame_log 8 False = 0"
  "u32 flat_short_frame_log 52 = 0"
  "u32 flat_short_frame_log 48 = 0"
  "u32 flat_short_frame_log 116 = 1000000"
  "u32 flat_short_frame_log 120 = 2000000"
  by (simp_all add: u32_nth u16_nth frame_size_at_def survey_type_at_def offset_defs
      flat_short_frame_log_def one_frame_log_def)

lemma flat_short_frame_ranges:
  "f_min_range (fields_at flat_short_frame_log 8 False) = Num 0"
  "f_max_range (fields_at flat_short_frame_log 8 False) = Num 0"
  "f_x (fields_at flat_short_frame_log 8 False) = 1000000"
  "f_y (fields_at flat_short_frame_log 8 False) = 2000000"
  using flat_short_frame_values
  by (simp_all add: fields_at_def meters_at_def offset_defs f32_values meters_0 to_signed_def
      del: jmul_Num)

lemma flat_short_frame_raises:
  "parseFrame flat_short_frame_log 8 False 1700000000 = Inl RangeError"
  using flat_short_frame_values
  by (subst parseFrame_cases)
     (simp_all add: length_flat_short_frame_log flat_short_frame_ranges frameHeaderSize_def)

subsection \<open>The log with an offset of 1001 ms\<close>

lemma late_seconds: "jdiv (Num 1001) (Num 1000) = Num (4508103226997866 * pow2 (- 52))"
proof -
  have "round64 (1001 / 1000) = Num (4508103226997866 * pow2 (- 52))"
    by (subst round64_binade [where k = "- 52"]) (simp_all add: pow2_def round_even_def)
  then show ?thesis by simp
qed

lemma late_sum:
  "jadd (Num 0) (Num (4508103226997866 * pow2 (- 52))) = Num (4508103226997866 * pow2 (- 52))"
  unfolding jadd.simps
  by (subst round64_binade [where k = "- 52"]) (simp_all add: pow2_def round_even_def)

lemma late_product:
  "jmul (Num (4508103226997866 * pow2 (- 52))) (Num 1000) = Num (8804889115230207 * pow2 (- 43))"
  unfolding jmul.simps
  by (subst round64_binade [where k = "- 43"]) (simp_all add: pow2_def round_even_def)

lemma late_date: "new_Date (Num (8804889115230207 * pow2 (- 43))) = Num 1000"
proof -
  have "\<lfloor>8804889115230207 * pow2 (- 43)\<rfloor> = 1000"
    by (intro floor_unique) (simp_all add: pow2_def)
  then show ?thesis by (simp add: new_Date_def pow2_def)
qed

lemma late_timestamp:
  "new_Date (jmul (jadd (Num 0) (Num (4508103226997866 * pow2 (- 52)))) (Num 1000)) = Num 1000"
  by (simp only: late_sum late_product late_date)

lemma length_late_offset_log: "length late_offset_log = 162"
  by (simp add: late_offset_log_def one_frame_log_def)

lemma late_offset_values:
  "u32 late_offset_log 68 = 0"
  "frame_size_at late_offset_log 8 False = 154"
  "survey_type_at late_offset_log 8 False = 0"
  "u32 late_offset_log 52 = 0x42800000"
  "u32 late_offset_log 48 = 0"
  "u32 late_offset_log 72 = 0x42400000"
  "u32 late_offset_log 116 = 1000000"
  "u32 late_offset_log 120 = 2000000"
  "u32 late_offset_log 148 = 1001"
  by (simp_all add: u32_nth u16_nth frame_size_at_def survey_type_at_def offset_defs
      late_offset_log_def one_frame_log_def)

lemma late_offset_fields:
  "fields_at late_offset_log 8 False =
     \<lparr> f_min_range = Num 0,
       f_max_range = Num (5490788665690109 * pow2 (- 48)),
       f_water_depth = Num (8236182998535164 * pow2 (- 49)),
       f_x = 1000000, f_y = 2000000,
       f_secondsOffset = Num (4508103226997866 * pow2 (- 52)),
       f_frame_size = 154, f_header_size = 144 \<rparr>"
  using late_offset_values
  by (simp add: fields_at_def meters_at_def offset_defs f32_values meters_0 meters_64
      meters_48 late_seconds to_signed_def frame_size_at_def
      del: jmul_Num jdiv_Num jadd_Num)

lemma late_offset_bottom_index: "bottom_index_at late_offset_log 8 False = Num 7"
  using late_offset_values
  by (simp add: bottom_index_at_def late_offset_fields signal_length_at_def frameHeaderSize_def
      sample_bottom_index)

lemma late_offset_decoded:
  "parseFrame late_offset_log 8 False 0 = Inr (Some (frame_at late_offset_log 8 False 0))"
  using late_offset_values
  by (subst parseFrame_cases)
     (simp_all add: length_late_offset_log frameHeaderSize_def late_offset_fields
        late_offset_bottom_index signal_length_at_def jge_def)

lemma late_offset_parse:
  "parseSonarFile late_offset_log ''track.sl2'' = Inr [frame_at late_offset_log 8 False 0]"
proof -
  have "scanFrames late_offset_log False 0 162 [frame_at late_offset_log 8 False 0]
        = Inr [frame_at late_offset_log 8 False 0]"
    by (subst scan_unfold) (simp add: length_late_offset_log frameHeaderSize_def)
  moreover have "jgt (water_depth (frame_at late_offset_log 8 False 0)) (Num 0)"
    by (simp add: frame_at_def late_offset_fields jgt_def Let_def)
  ultimately have "scanFrames late_offset_log False 0 8 []
        = Inr [frame_at late_offset_log 8 False 0]"
    using late_offset_values(2)
    by (subst scan_unfold)
       (simp add: length_late_offset_log frameHeaderSize_def frame_size_at_def
          late_offset_decoded rbind_def push_frame_def)
  then show ?thesis
    by (simp add: parseSonarFile_cases sl2_is_variant_B length_late_offset_log
        firstFrameHardWareTimeOffset_def late_offset_values)
qed

lemma late_offset_timestamp: "timestamp (frame_at late_offset_log 8 False 0) = Num 1000"
  using late_timestamp
  by (simp add: frame_at_def Let_def late_offset_fields del: jmul_Num jdiv_Num jadd_Num)

subsection \<open>The variant-A log\<close>

lemma length_one_frame_log_a: "length one_frame_log_a = 186"
  by (simp add: one_frame_log_a_def)

lemma one_frame_a_values:
  "u32 one_frame_log_a 48 = 1700000000"
  "frame_size_at one_frame_log_a 8 True = 178"
  "survey_type_at one_frame_log_a 8 True = 0"
  "u32 one_frame_log_a 32 = 0x42800000"
  "u32 one_frame_log_a 28 = 0"
  "u32 one_frame_log_a 56 = 0x42400000"
  "u32 one_frame_log_a 100 = 1000000"
  "u32 one_frame_log_a 104 = 2000000"
  "u32 one_frame_log_a 132 = 5000"
  "u32 one_frame_log_a 68 = 0"
  "frame_size_at one_frame_log_a 8 False = 0"
  by (simp_all add: u32_nth u16_nth frame_size_at_def survey_type_at_def offset_defs
      one_frame_log_a_def)

lemma one_frame_a_fields:
  "fields_at one_frame_log_a 8 True =
     \<lparr> f_min_range = Num 0,
       f_max_range = Num (5490788665690109 * pow2 (- 48)),
       f_water_depth = Num (8236182998535164 * pow2 (- 49)),
       f_x = 1000000, f_y = 2000000, f_secondsOffset = Num 5,
       f_frame_size = 178, f_header_size = 168 \<rparr>"
  using one_frame_a_values
  by (simp add: fields_at_def meters_at_def offset_defs f32_values meters_0 meters_64
      meters_48 sample_seconds to_signed_def frame_size_at_def
      del: jmul_Num jdiv_Num jadd_Num)

lemma one_frame_a_bottom_index: "bottom_index_at one_frame_log_a 8 True = Num 7"
  using one_frame_a_values
  by (simp add: bottom_index_at_def one_frame_a_fields signal_length_at_def frameHeaderSize_def
      sample_bottom_index)

lemma one_frame_a_decoded:
  "parseFrame one_frame_log_a 8 True 1700000000
     = Inr (Some (frame_at one_frame_log_a 8 True 1700000000))"
  using one_frame_a_values
  by (subst parseFrame_cases)
     (simp_all add: length_one_frame_log_a frameHeaderSize_def one_frame_a_fields
        one_frame_a_bottom_index signal_length_at_def jge_def)

lemma one_frame_a_scan_as_A:
  "scanFrames one_frame_log_a True 1700000000 8 []
     = Inr [frame_at one_frame_log_a 8 True 1700000000]"
proof -
  have "scanFrames one_frame_log_a True 1700000000 186 [frame_at one_frame_log_a 8 True 1700000000]
        = Inr [frame_at one_frame_log_a 8 True 1700000000]"
    by (subst scan_unfold) (simp add: length_one_frame_log_a frameHeaderSize_def)
  moreover have "jgt (water_depth (frame_at one_frame_log_a 8 True 1700000000)) (Num 0)"
    by (simp add: frame_at_def one_frame_a_fields jgt_def Let_def)
  ultimately show ?thesis
    using one_frame_a_values(2)
    by (subst scan_unfold)
       (simp add: length_one_frame_log_a frameHeaderSize_def frame_size_at_def
          one_frame_a_decoded rbind_def push_frame_def)
qed

lemma one_frame_a_scan_as_B: "scanFrames one_frame_log_a False 0 8 [] = Inr []"
  using one_frame_a_values(11)
  by (subst scan_unfold) (simp add: length_one_frame_log_a frameHeaderSize_def frame_size_at_def)

lemma one_frame_scan_as_B:
  "scanFrames one_frame_log False 1700000000 8 []
     = Inr [frame_at one_frame_log 8 False 1700000000]"
  using one_frame_parse
  by (simp add: parseSonarFile_cases sl2_is_variant_B length_one_frame_log
      firstFrameHardWareTimeOffset_def one_frame_values)

lemma one_frame_scan_as_A: "scanFrames one_frame_log True 0 8 [] = Inr []"
  by (subst scan_unfold) (simp add: length_one_frame_log frameHeaderSize_def)

section \<open>What every returned record satisfies\<close>

text \<open>
  A returned record has a positive depth, nonzero coordinates and a frame at least as
  long as its header. Its \<open>max_range\<close> exceeds its \<open>min_range\<close> when neither is NaN:
  the guard \<^verbatim>\<open>max_range <= min_range\<close> is false on a NaN, so it lets a NaN through.
\<close>

lemma jle_numbers: "a \<noteq> NaN \<Longrightarrow> b \<noteq> NaN \<Longrightarrow> \<not> jle a b \<Longrightarrow> jgt a b"
  by (cases a; cases b) (auto simp: jgt_def)

lemma record_invariants:
  assumes parse: "parseSonarFile arrayBuffer fileName = Inr recs"
    and mem: "r \<in> set recs"
  shows "jgt (water_depth r) (Num 0)"
    and "frame_x r \<noteq> 0" and "frame_y r \<noteq> 0"
    and "header_size r \<le> frame_size r"
    and "max_range r \<noteq> NaN \<Longrightarrow> min_range r \<noteq> NaN \<Longrightarrow> jgt (max_range r) (min_range r)"
proof -
  let ?v = "isSl3_of fileName"
  let ?t = "u32 arrayBuffer (8 + firstFrameHardWareTimeOffset ?v)"
  from mem have "recs \<noteq> []" by auto
  with parse have scan: "scanFrames arrayBuffer ?v ?t 8 [] = Inr recs"
    unfolding parseSonarFile_cases by (auto split: if_splits)
  from scan_records [OF scan mem] obtain p where
    hdr: "p + frameHeaderSize ?v \<le> length arrayBuffer"
    and fit: "p + frame_size_at arrayBuffer p ?v \<le> length arrayBuffer"
    and pf: "parseFrame arrayBuffer p ?v ?t = Inr (Some r)"
    and wd: "jgt (water_depth r) (Num 0)"
    by auto
  note facts = parseFrame_Some [OF hdr fit pf]
  have r: "r = frame_at arrayBuffer p ?v ?t" by (rule facts(1))
  show "jgt (water_depth r) (Num 0)" by (rule wd)
  show "frame_x r \<noteq> 0" using facts(3) by (simp add: r frame_at_def Let_def)
  show "frame_y r \<noteq> 0" using facts(4) by (simp add: r frame_at_def Let_def)
  show "header_size r \<le> frame_size r"
    using facts(5) by (simp add: r frame_at_def Let_def fields_at_def frame_size_at_def)
  have "\<not> jle (max_range r) (min_range r)"
    using facts(6) by (simp add: r frame_at_def Let_def)
  then show "max_range r \<noteq> NaN \<Longrightarrow> min_range r \<noteq> NaN \<Longrightarrow> jgt (max_range r) (min_range r)"
    by (rule jle_numbers [rotated 2])
qed

section \<open>When the scan cannot raise\<close>

text \<open>
  The scan is total: it always returns, with records or with the exception of a frame.
  The only exception inside it is the \<^verbatim>\<open>Uint8Array\<close> of negative length, so a buffer in
  which no frame header declares less than the header size is scanned without one.
\<close>

lemma scan_returns_when_frames_hold_their_header:
  assumes "\<And>p. p + frameHeaderSize isSl3 \<le> length view \<Longrightarrow>
             frameHeaderSize isSl3 \<le> frame_size_at view p isSl3"
  shows "\<exists>recs. scanFrames view isSl3 startTime position data = Inr recs"
  using assms
proof (induction view isSl3 startTime position data rule: scanFrames.induct)
  case (1 view isSl3 startTime position data)
  let ?fs = "frame_size_at view position isSl3"
  show ?case
  proof (cases "length view - position < frameHeaderSize isSl3
                \<or> ?fs = 0 \<or> length view < position + ?fs")
    case True
    then show ?thesis
      by (subst scan_unfold) (auto simp: frame_size_at_def)
  next
    case False
    then have hdr: "position + frameHeaderSize isSl3 \<le> length view"
      and fit: "position + ?fs \<le> length view" and nz: "?fs \<noteq> 0" by auto
    from hdr have lt: "position < length view" "\<not> length view < position + frameHeaderSize isSl3"
      by (auto simp: frameHeaderSize_def split: if_splits)
    from hdr have g: "getUint16 view (position + frameSizeOffset isSl3) = Inr ?fs"
      unfolding frame_size_at_def
      by (intro getUint16_in) (auto simp: frameHeaderSize_def frameSizeOffset_def split: if_splits)
    from "1.prems" [OF hdr] have "\<exists>fd. parseFrame view position isSl3 startTime = Inr fd"
      unfolding parseFrame_cases [OF hdr fit] by simp
    then obtain fd where pf: "parseFrame view position isSl3 startTime = Inr fd" by blast
    have "\<exists>recs. scanFrames view isSl3 startTime (position + ?fs) (push_frame data fd) = Inr recs"
      using "1.IH" [OF _ _ g _ pf] lt nz fit "1.prems" by auto
    with False pf show ?thesis
      by (subst scan_unfold) (auto simp: frame_size_at_def rbind_def)
  qed
qed

section \<open>The claims\<close>

subsection \<open>C1: truncated buffers and frames shorter than their header\<close>

text \<open>
  C1 says that decoding never raises: a buffer cut at any point, or a frame whose
  declared \<open>frame_size\<close> is smaller than the header, only gives fewer records. The reads
  of the model are all checked, so no byte outside the buffer is ever read; but the
  check raises. The one-frame log decodes to one record; cut after 40 bytes, the read of
  the time base at byte 68 raises \<^verbatim>\<open>RangeError\<close>; and with \<open>frame_size = 100\<close> in its
  frame, the \<^verbatim>\<open>Uint8Array\<close> of length \<open>100 - 144\<close> raises \<^verbatim>\<open>RangeError\<close>.
\<close>

theorem truncated_or_short_frame_raises:
  "parseSonarFile one_frame_log ''track.sl2'' = Inr [frame_at one_frame_log 8 False 1700000000]
   \<and> parseSonarFile (take 40 one_frame_log) ''track.sl2'' = Inl RangeError
   \<and> frame_size_at short_frame_log 8 False = 100
   \<and> parseSonarFile short_frame_log ''track.sl2'' = Inl RangeError"
proof -
  have "parseSonarFile (take 40 one_frame_log) ''track.sl2'' = Inl RangeError"
    by (simp add: parseSonarFile_cases length_one_frame_log sl2_is_variant_B
        firstFrameHardWareTimeOffset_def)
  then show ?thesis by (simp add: one_frame_parse short_frame_parse short_frame_values)
qed

subsection \<open>C2: a frame with a NaN range is recorded\<close>

text \<open>
  C2 says that every returned record has \<open>water_depth > 0\<close>, \<open>max_range > min_range\<close>,
  nonzero coordinates and a bottom index inside the signal, also when a float field is
  NaN. In the log whose \<open>max_range\<close> is NaN both guards of the decoder compare with NaN
  and are false, so the frame is recorded: its \<open>max_range\<close> is NaN, which is not greater
  than its \<open>min_range\<close>, its bottom index is NaN, and \<open>bottom_density_1\<close> is
  \<^verbatim>\<open>undefined\<close>.
\<close>

theorem nan_range_frame_is_recorded:
  "parseSonarFile nan_range_log ''track.sl2'' = Inr [frame_at nan_range_log 8 False 1700000000]
   \<and> max_range (frame_at nan_range_log 8 False 1700000000) = NaN
   \<and> min_range (frame_at nan_range_log 8 False 1700000000) = Num 0
   \<and> \<not> jgt (max_range (frame_at nan_range_log 8 False 1700000000))
            (min_range (frame_at nan_range_log 8 False 1700000000))
   \<and> bottom_index_at nan_range_log 8 False = NaN
   \<and> \<not> jle (Num 0) (bottom_index_at nan_range_log 8 False)
   \<and> bottom_density_1 (frame_at nan_range_log 8 False 1700000000) = None"
  by (simp add: nan_range_parse nan_range_bottom_index frame_at_def nan_range_fields Let_def
      jgt_def typed_get_def)

subsection \<open>C3: buffers too short for a frame\<close>

text \<open>
  C3 says that a buffer of fewer than 8 bytes, or one with no room for a frame header
  after the file header, fails with an error. A buffer of 4 zero bytes and one of 100
  zero bytes (variant B needs 8 + 144) both decode to the empty sequence.
\<close>

theorem short_buffers_decode_to_nothing:
  "length (replicate 4 (0 :: byte)) < 8
   \<and> parseSonarFile (replicate 4 0) ''track.sl2'' = Inr []
   \<and> 8 \<le> length (replicate 100 (0 :: byte))
   \<and> length (replicate 100 (0 :: byte)) < 8 + frameHeaderSize (isSl3_of ''track.sl2'')
   \<and> parseSonarFile (replicate 100 0) ''track.sl2'' = Inr []"
proof -
  have "scanFrames (replicate 100 0) False (u32 (replicate 100 0) 68) 8 [] = Inr []"
    by (subst scan_unfold) (simp add: frameHeaderSize_def)
  then show ?thesis
    by (simp add: parseSonarFile_cases sl2_is_variant_B firstFrameHardWareTimeOffset_def
        frameHeaderSize_def)
qed

text \<open>
  C3, amended. A buffer of fewer than 4 bytes fails with the \<^verbatim>\<open>RangeError\<close> of the
  file-header read (the decoder has no other error). A buffer of 4 to 8 bytes, and a
  buffer that holds the time-base field of the first frame but not a whole frame header,
  decode to the empty sequence.
\<close>

theorem short_buffer_outcomes:
  "(length arrayBuffer < 4 \<longrightarrow> parseSonarFile arrayBuffer fileName = Inl RangeError)
   \<and> (4 \<le> length arrayBuffer \<and> length arrayBuffer \<le> 8 \<longrightarrow>
        parseSonarFile arrayBuffer fileName = Inr [])
   \<and> (8 + firstFrameHardWareTimeOffset (isSl3_of fileName) + 4 \<le> length arrayBuffer
        \<and> length arrayBuffer < 8 + frameHeaderSize (isSl3_of fileName) \<longrightarrow>
        parseSonarFile arrayBuffer fileName = Inr [])"
proof (intro conjI impI)
  assume "length arrayBuffer < 4"
  then show "parseSonarFile arrayBuffer fileName = Inl RangeError"
    by (simp add: parseSonarFile_cases)
next
  assume "4 \<le> length arrayBuffer \<and> length arrayBuffer \<le> 8"
  then show "parseSonarFile arrayBuffer fileName = Inr []"
    by (simp add: parseSonarFile_cases)
next
  assume a: "8 + firstFrameHardWareTimeOffset (isSl3_of fileName) + 4 \<le> length arrayBuffer
        \<and> length arrayBuffer < 8 + frameHeaderSize (isSl3_of fileName)"
  then have "scanFrames arrayBuffer (isSl3_of fileName)
      (u32 arrayBuffer (8 + firstFrameHardWareTimeOffset (isSl3_of fileName))) 8 [] = Inr []"
    by (subst scan_unfold) auto
  with a show "parseSonarFile arrayBuffer fileName = Inr []"
    by (simp add: parseSonarFile_cases)
qed

theorem short_buffer_outcomes_witness:
  "length (replicate 3 (0 :: byte)) < 4
   \<and> parseSonarFile (replicate 3 0) ''track.sl3'' = Inl RangeError
   \<and> parseSonarFile (replicate 8 0) ''track.sl3'' = Inr []
   \<and> 8 + firstFrameHardWareTimeOffset (isSl3_of ''track.sl3'') + 4
        \<le> length (replicate 60 (0 :: byte))
   \<and> length (replicate 60 (0 :: byte)) < 8 + frameHeaderSize (isSl3_of ''track.sl3'')
   \<and> parseSonarFile (replicate 60 0) ''track.sl3'' = Inr []"
  using short_buffer_outcomes [of "replicate 3 0" "''track.sl3''"]
    short_buffer_outcomes [of "replicate 8 0" "''track.sl3''"]
    short_buffer_outcomes [of "replicate 60 0" "''track.sl3''"]
  by (simp add: sl3_is_variant_A firstFrameHardWareTimeOffset_def frameHeaderSize_def)

subsection \<open>C4: buffers too short for the time base\<close>

text \<open>
  C4 says that a buffer of at least 8 bytes that is too short for the 32-bit time-base
  field decodes to the empty sequence. That holds for exactly 8 bytes; with more than 8
  bytes the guard before the read lets the buffer through and the read raises
  \<^verbatim>\<open>RangeError\<close>.
\<close>

theorem time_base_read_raises:
  assumes "8 < length arrayBuffer"
    and "length arrayBuffer < 8 + (if isSl3_of fileName then 40 else 60) + 4"
  shows "parseSonarFile arrayBuffer fileName = Inl RangeError"
  using assms by (auto simp: parseSonarFile_cases firstFrameHardWareTimeOffset_def)

theorem time_base_read_raises_witness:
  "8 < length (replicate 20 (0 :: byte))
   \<and> length (replicate 20 (0 :: byte)) < 8 + (if isSl3_of ''track.sl3'' then 40 else 60) + 4
   \<and> parseSonarFile (replicate 20 0) ''track.sl3'' = Inl RangeError
   \<and> parseSonarFile (replicate 20 0) ''track.sl2'' = Inl RangeError"
  using time_base_read_raises [of "replicate 20 0" "''track.sl3''"]
    time_base_read_raises [of "replicate 20 0" "''track.sl2''"]
  by (simp add: sl3_is_variant_A sl2_is_variant_B)

subsection \<open>C5: a frame that is neither a stop nor an advance\<close>

text \<open>
  C5 says that the scan returns the records pushed so far as soon as fewer than
  \<open>header_size\<close> bytes remain, \<open>frame_size\<close> is 0 or the frame overruns the buffer, and
  that it otherwise decodes the frame and advances by \<open>frame_size\<close>. On the log whose
  frame declares \<open>frame_size = 100\<close> none of the three stops holds at byte 8, and the
  scan neither advances nor returns its records, whatever they are: the decoder raises
  \<^verbatim>\<open>RangeError\<close> and the records are lost. The scan from byte 108, where it would have
  gone on, returns them.
\<close>

theorem scan_raises_without_stop_or_advance:
  "\<not> length short_frame_log - 8 < frameHeaderSize False
   \<and> frame_size_at short_frame_log 8 False = 100
   \<and> \<not> length short_frame_log < 8 + frame_size_at short_frame_log 8 False
   \<and> scanFrames short_frame_log False 1700000000 8 data = Inl RangeError
   \<and> scanFrames short_frame_log False 1700000000 (8 + 100) data = Inr data"
proof -
  have "scanFrames short_frame_log False 1700000000 8 data = Inl RangeError"
    using short_frame_values(2)
    by (subst scan_unfold)
       (simp add: length_short_frame_log frameHeaderSize_def frame_size_at_def
          short_frame_raises rbind_def)
  moreover have "scanFrames short_frame_log False 1700000000 (8 + 100) data = Inr data"
    by (subst scan_unfold) (simp add: length_short_frame_log frameHeaderSize_def)
  ultimately show ?thesis
    by (simp add: short_frame_values length_short_frame_log frameHeaderSize_def)
qed

subsection \<open>C6: a frame with equal ranges that is not skipped\<close>

text \<open>
  C6 says that a frame rejected for its content, among others for
  \<open>max_range \<le> min_range\<close>, gives no record and is skipped: the scan goes on at
  \<open>position + frame_size\<close> and the other records are unchanged. In the log whose frame
  has survey type 0, nonzero coordinates, both ranges 0 and \<open>frame_size = 100\<close>, the
  decoder builds the \<^verbatim>\<open>Uint8Array\<close> of length \<open>100 - 144\<close> before it compares the
  ranges, and raises \<^verbatim>\<open>RangeError\<close>. The scan from this frame raises too and loses its
  records, where the scan from \<open>position + frame_size\<close> returns them.
\<close>

theorem degenerate_short_frame_raises:
  "survey_type_at flat_short_frame_log 8 False = 0
   \<and> f_x (fields_at flat_short_frame_log 8 False) = 1000000
   \<and> f_y (fields_at flat_short_frame_log 8 False) = 2000000
   \<and> jle (f_max_range (fields_at flat_short_frame_log 8 False))
           (f_min_range (fields_at flat_short_frame_log 8 False))
   \<and> frame_size_at flat_short_frame_log 8 False = 100
   \<and> parseFrame flat_short_frame_log 8 False 1700000000 = Inl RangeError
   \<and> scanFrames flat_short_frame_log False 1700000000 8 data = Inl RangeError
   \<and> scanFrames flat_short_frame_log False 1700000000 (8 + 100) data = Inr data
   \<and> parseSonarFile flat_short_frame_log ''track.sl2'' = Inl RangeError"
proof -
  have a: "scanFrames flat_short_frame_log False 1700000000 8 d = Inl RangeError" for d
    using flat_short_frame_values(2)
    by (subst scan_unfold)
       (simp add: length_flat_short_frame_log frameHeaderSize_def frame_size_at_def
          flat_short_frame_raises rbind_def)
  have b: "scanFrames flat_short_frame_log False 1700000000 (8 + 100) data = Inr data"
    by (subst scan_unfold) (simp add: length_flat_short_frame_log frameHeaderSize_def)
  have c: "parseSonarFile flat_short_frame_log ''track.sl2'' = Inl RangeError"
    by (simp add: parseSonarFile_cases sl2_is_variant_B length_flat_short_frame_log
        firstFrameHardWareTimeOffset_def flat_short_frame_values a)
  from a [of data] b c show ?thesis
    by (simp add: flat_short_frame_values flat_short_frame_ranges flat_short_frame_raises)
qed

subsection \<open>C7: the timestamp of a record\<close>

text \<open>
  C7 says that the timestamp of every accepted frame equals the time base plus the
  frame's own millisecond offset divided by 1000. The decoder computes
  \<^verbatim>\<open>new Date((startTime + ms / 1000) * 1000)\<close> in binary64 and the \<^verbatim>\<open>Date\<close> keeps whole
  milliseconds: in the log with time base 0 and an offset of 1001 ms the quotient is
  the binary64 next to 1.001, the product is 1000.9999999999999 and the timestamp of
  the one record is 1000 ms, not the 1001 ms of 0 s plus 1001 ms / 1000.
\<close>

theorem timestamp_is_not_base_plus_offset:
  "parseSonarFile late_offset_log ''track.sl2'' = Inr [frame_at late_offset_log 8 False 0]
   \<and> u32 late_offset_log (8 + 60) = 0
   \<and> u32 late_offset_log (8 + 140) = 1001
   \<and> timestamp (frame_at late_offset_log 8 False 0) = Num 1000
   \<and> timestamp (frame_at late_offset_log 8 False 0) \<noteq> Num ((0 + 1001 / 1000) * 1000)"
  by (simp add: late_offset_parse late_offset_values late_offset_timestamp)

text \<open>
  C7, amended: for every record \<open>r\<close> that the parser returns there is a cursor
  \<open>p \<ge> 8\<close> with a whole frame header in the buffer at which \<^verbatim>\<open>parseFrame\<close>, called with
  the time base read once at byte \<open>8 + 40\<close> (variant A) or \<open>8 + 60\<close> (variant B), returns
  \<open>r\<close>; the timestamp of \<open>r\<close> is the \<^verbatim>\<open>Date\<close> of the binary64 value
  \<open>(timeBase + offset / 1000) * 1000\<close>, where \<open>offset\<close> is the 32-bit value at \<open>p + 124\<close>
  (A) or \<open>p + 140\<close> (B) of that frame alone; and it is the exact number of milliseconds
  \<open>timeBase * 1000 + offset\<close> or one millisecond less. No other frame and no other
  record enters the value.
\<close>

theorem timestamp_from_single_time_base:
  assumes ok: "parseSonarFile arrayBuffer fileName = Inr recs" and mem: "r \<in> set recs"
  shows "let A = (toLowerCase (final_suffix fileName) = ''sl3'');
             timeBase = u32 arrayBuffer (8 + (if A then 40 else 60))
         in 8 + (if A then 40 else 60) + 4 \<le> length arrayBuffer
          \<and> (\<exists>p offset. 8 \<le> p \<and> p + (if A then 168 else 144) \<le> length arrayBuffer
               \<and> parseFrame arrayBuffer p A timeBase = Inr (Some r)
               \<and> offset = u32 arrayBuffer (p + (if A then 124 else 140))
               \<and> timestamp r
                   = new_Date (jmul (jadd (Num (real timeBase))
                                          (jdiv (Num (real offset)) (Num 1000)))
                                    (Num 1000))
               \<and> (timestamp r = Num (real (timeBase * 1000 + offset))
                  \<or> timestamp r = Num (real (timeBase * 1000 + offset) - 1)))"
proof -
  let ?A = "toLowerCase (final_suffix fileName) = ''sl3''"
  let ?t = "u32 arrayBuffer (8 + (if ?A then 40 else 60))"
  have A: "isSl3_of fileName = ?A" by (simp add: isSl3_of_def last_split_dot)
  have off: "firstFrameHardWareTimeOffset ?A = (if ?A then 40 else 60)"
    by (simp add: firstFrameHardWareTimeOffset_def)
  from mem have ne: "recs \<noteq> []" by auto
  with ok have len: "8 + (if ?A then 40 else 60) + 4 \<le> length arrayBuffer"
    and scan: "scanFrames arrayBuffer ?A ?t 8 [] = Inr recs"
    unfolding parseSonarFile_cases A off by (auto split: if_splits)
  from scan_records [OF scan mem] obtain p where p: "8 \<le> p"
    and hdr: "p + frameHeaderSize ?A \<le> length arrayBuffer"
    and fit: "p + frame_size_at arrayBuffer p ?A \<le> length arrayBuffer"
    and pf: "parseFrame arrayBuffer p ?A ?t = Inr (Some r)"
    by auto
  let ?ms = "u32 arrayBuffer (p + (if ?A then 124 else 140))"
  have r: "r = frame_at arrayBuffer p ?A ?t" by (rule parseFrame_Some(1) [OF hdr fit pf])
  have ts: "timestamp r
      = new_Date (jmul (jadd (Num (real ?t)) (jdiv (Num (real ?ms)) (Num 1000))) (Num 1000))"
    unfolding r
    by (simp add: frame_at_def fields_at_def timeOffset_def Let_def
        del: jmul_Num jdiv_Num jadd_Num)
  have near: "timestamp r = Num (real (?t * 1000 + ?ms))
      \<or> timestamp r = Num (real (?t * 1000 + ?ms) - 1)"
    unfolding ts by (rule timestamp_within_a_millisecond) (rule u32_bound)+
  have h: "p + (if ?A then 168 else 144) \<le> length arrayBuffer"
    using hdr by (simp add: frameHeaderSize_def)
  from p h pf ts near
  have "\<exists>p offset. 8 \<le> p \<and> p + (if ?A then 168 else 144) \<le> length arrayBuffer
               \<and> parseFrame arrayBuffer p ?A ?t = Inr (Some r)
               \<and> offset = u32 arrayBuffer (p + (if ?A then 124 else 140))
               \<and> timestamp r
                   = new_Date (jmul (jadd (Num (real ?t))
                                          (jdiv (Num (real offset)) (Num 1000)))
                                    (Num 1000))
               \<and> (timestamp r = Num (real (?t * 1000 + offset))
                  \<or> timestamp r = Num (real (?t * 1000 + offset) - 1))"
    by blast
  with len show ?thesis unfolding Let_def by blast
qed

text \<open>
  In the two-frame log the first physical frame belongs to survey channel 1 and is
  rejected; the time base 1700000000 is read from it all the same, not from the
  hardware-time field 255 of the accepted frame at byte 152, whose offset of 5000 ms
  gives the timestamp 1700000005000.
\<close>

theorem timestamp_from_single_time_base_witness:
  "parseSonarFile two_frame_log ''track.sl2'' = Inr [frame_at two_frame_log 152 False 1700000000]
   \<and> parseFrame two_frame_log 8 False 1700000000 = Inr None
   \<and> u32 two_frame_log (8 + 60) = 1700000000
   \<and> u32 two_frame_log (152 + 60) = 255
   \<and> u32 two_frame_log (152 + 140) = 5000
   \<and> timestamp (frame_at two_frame_log 152 False 1700000000) = Num 1700000005000
   \<and> (\<exists>p offset. 8 \<le> p \<and> p + 144 \<le> length two_frame_log
        \<and> parseFrame two_frame_log p False 1700000000
            = Inr (Some (frame_at two_frame_log 152 False 1700000000))
        \<and> offset = u32 two_frame_log (p + 140)
        \<and> (timestamp (frame_at two_frame_log 152 False 1700000000)
              = Num (real (1700000000 * 1000 + offset))
           \<or> timestamp (frame_at two_frame_log 152 False 1700000000)
              = Num (real (1700000000 * 1000 + offset) - 1)))"
proof -
  have n: "(toLowerCase (final_suffix ''track.sl2'') = ''sl3'') = False" by code_simp
  have m: "frame_at two_frame_log 152 False 1700000000
      \<in> set [frame_at two_frame_log 152 False 1700000000]" by simp
  from timestamp_from_single_time_base [OF two_frame_parse m]
  have "\<exists>p offset. 8 \<le> p \<and> p + 144 \<le> length two_frame_log
        \<and> parseFrame two_frame_log p False 1700000000
            = Inr (Some (frame_at two_frame_log 152 False 1700000000))
        \<and> offset = u32 two_frame_log (p + 140)
        \<and> (timestamp (frame_at two_frame_log 152 False 1700000000)
              = Num (real (1700000000 * 1000 + offset))
           \<or> timestamp (frame_at two_frame_log 152 False 1700000000)
              = Num (real (1700000000 * 1000 + offset) - 1))"
    unfolding Let_def n by (simp add: two_frame_values del: jmul_Num jdiv_Num jadd_Num) blast
  then show ?thesis
    by (simp add: two_frame_parse two_frame_first_rejected two_frame_values two_frame_timestamp)
qed

subsection \<open>C8: the density samples of a frame with a NaN bottom index\<close>

text \<open>
  C8 says that every accepted frame has \<open>bottom_density_1 = signal[bottom_index]\<close> and
  averages over the in-bounds bytes of \<open>signal[bottom_index .. bottom_index + k)\<close>. The
  frame of the log with a NaN \<open>max_range\<close> is accepted with a signal run of 10 bytes; its
  bottom index \<open>floor (10 / (max_range - min_range) * water_depth)\<close> is NaN, so
  \<open>bottom_density_1\<close> is \<^verbatim>\<open>undefined\<close>, no byte of the signal is read, and both averages
  are the 0 that \<^verbatim>\<open>getAverage\<close> returns for a count of 0.
\<close>

theorem nan_frame_has_no_bottom_sample:
  "parseFrame nan_range_log 8 False 1700000000
     = Inr (Some (frame_at nan_range_log 8 False 1700000000))
   \<and> length (signal_at nan_range_log 8 False) = 10
   \<and> bottom_index_of 10 (max_range (frame_at nan_range_log 8 False 1700000000))
         (min_range (frame_at nan_range_log 8 False 1700000000))
         (water_depth (frame_at nan_range_log 8 False 1700000000)) = NaN
   \<and> bottom_density_1 (frame_at nan_range_log 8 False 1700000000) = None
   \<and> count_of (getAverage (signal_at nan_range_log 8 False) NaN 10) = 0
   \<and> bottom_density_10 (frame_at nan_range_log 8 False 1700000000) = Num 0
   \<and> bottom_density_100 (frame_at nan_range_log 8 False 1700000000) = Num 0"
proof -
  have len: "length (signal_at nan_range_log 8 False) = 10"
    using nan_range_values(2)
    by (simp add: signal_at_def signal_length_at_def frameHeaderSize_def length_nan_range_log)
  have cnt: "count_of (getAverage (signal_at nan_range_log 8 False) NaN 10) = 0"
    by (simp add: getAverage_def fold_average_step_NaN)
  show ?thesis
    by (simp add: nan_range_decoded len cnt frame_at_def nan_range_fields Let_def
        nan_range_bottom_index bottom_index_of_def jsub_def typed_get_def getAverage_NaN)
qed

subsection \<open>C9: the coordinate transform\<close>




subsection \<open>C10: the variant is chosen from the file name\<close>

text \<open>
  C10: the parser picks the variant from the file name alone. With \<open>A\<close> true exactly when
  the final dot-separated suffix of the name is \<^verbatim>\<open>sl3\<close> up to letter case, the parser
  reads the time base at byte \<open>8 + 40\<close> when \<open>A\<close> holds and at \<open>8 + 60\<close> otherwise and scans
  the buffer as variant A when \<open>A\<close> holds and as variant B otherwise; its only error is
  the \<^verbatim>\<open>RangeError\<close> of a buffer shorter than 4 bytes or of more than 8 bytes without the
  time base, for every name. Every record it returns was read at a cursor \<open>p\<close> with the
  header size (168 or 144) and the field offsets of that variant: frame size at 8 or
  28, survey type at 12 or 32, ranges at 20 and 24 or 40 and 44, depth at 48 or 64,
  \<open>x\<close> and \<open>y\<close> at 92 and 96 or 108 and 112.
\<close>

theorem variant_from_final_suffix:
  "let A = (toLowerCase (final_suffix fileName) = ''sl3'');
       timeBase = u32 arrayBuffer (8 + (if A then 40 else 60))
   in parseSonarFile arrayBuffer fileName =
        (if length arrayBuffer < 4 then Inl RangeError
         else if length arrayBuffer \<le> 8 then Inr []
         else if length arrayBuffer < 8 + (if A then 40 else 60) + 4 then Inl RangeError
         else scanFrames arrayBuffer A timeBase 8 [])
      \<and> (\<forall>recs r. parseSonarFile arrayBuffer fileName = Inr recs \<and> r \<in> set recs \<longrightarrow>
            (\<exists>p. 8 \<le> p \<and> p + (if A then 168 else 144) \<le> length arrayBuffer
               \<and> header_size r = (if A then 168 else 144)
               \<and> frame_size r = u16 arrayBuffer (p + (if A then 8 else 28))
               \<and> u16 arrayBuffer (p + (if A then 12 else 32)) = 0
               \<and> min_range r
                    = jmul (float32_value (u32 arrayBuffer (p + (if A then 20 else 40))))
                        FEET_TO_METERS
               \<and> max_range r
                    = jmul (float32_value (u32 arrayBuffer (p + (if A then 24 else 44))))
                        FEET_TO_METERS
               \<and> water_depth r
                    = jmul (float32_value (u32 arrayBuffer (p + (if A then 48 else 64))))
                        FEET_TO_METERS
               \<and> frame_x r = to_signed 32 (u32 arrayBuffer (p + (if A then 92 else 108)))
               \<and> frame_y r = to_signed 32 (u32 arrayBuffer (p + (if A then 96 else 112)))))"
proof -
  let ?A = "toLowerCase (final_suffix fileName) = ''sl3''"
  let ?t = "u32 arrayBuffer (8 + (if ?A then 40 else 60))"
  have A: "isSl3_of fileName = ?A" by (simp add: isSl3_of_def last_split_dot)
  have off: "firstFrameHardWareTimeOffset ?A = (if ?A then 40 else 60)"
    by (simp add: firstFrameHardWareTimeOffset_def)
  have parse: "parseSonarFile arrayBuffer fileName =
        (if length arrayBuffer < 4 then Inl RangeError
         else if length arrayBuffer \<le> 8 then Inr []
         else if length arrayBuffer < 8 + (if ?A then 40 else 60) + 4 then Inl RangeError
         else scanFrames arrayBuffer ?A ?t 8 [])"
    unfolding parseSonarFile_cases A off ..
  have recs: "\<exists>p. 8 \<le> p \<and> p + (if ?A then 168 else 144) \<le> length arrayBuffer
               \<and> header_size r = (if ?A then 168 else 144)
               \<and> frame_size r = u16 arrayBuffer (p + (if ?A then 8 else 28))
               \<and> u16 arrayBuffer (p + (if ?A then 12 else 32)) = 0
               \<and> min_range r
                    = jmul (float32_value (u32 arrayBuffer (p + (if ?A then 20 else 40))))
                        FEET_TO_METERS
               \<and> max_range r
                    = jmul (float32_value (u32 arrayBuffer (p + (if ?A then 24 else 44))))
                        FEET_TO_METERS
               \<and> water_depth r
                    = jmul (float32_value (u32 arrayBuffer (p + (if ?A then 48 else 64))))
                        FEET_TO_METERS
               \<and> frame_x r = to_signed 32 (u32 arrayBuffer (p + (if ?A then 92 else 108)))
               \<and> frame_y r = to_signed 32 (u32 arrayBuffer (p + (if ?A then 96 else 112)))"
    if ok: "parseSonarFile arrayBuffer fileName = Inr recs" and mem: "r \<in> set recs" for recs r
  proof -
    from mem have "recs \<noteq> []" by auto
    with ok have scan: "scanFrames arrayBuffer ?A ?t 8 [] = Inr recs"
      unfolding parse by (auto split: if_splits)
    from scan_records [OF scan mem] obtain p where p: "8 \<le> p"
      and hdr: "p + frameHeaderSize ?A \<le> length arrayBuffer"
      and fit: "p + frame_size_at arrayBuffer p ?A \<le> length arrayBuffer"
      and pf: "parseFrame arrayBuffer p ?A ?t = Inr (Some r)"
      by auto
    note facts = parseFrame_Some [OF hdr fit pf]
    have r: "r = frame_at arrayBuffer p ?A ?t" by (rule facts(1))
    have "u16 arrayBuffer (p + (if ?A then 12 else 32)) = 0"
      using facts(2) by (simp add: survey_type_at_def surveyTypeOffset_def)
    moreover have "p + (if ?A then 168 else 144) \<le> length arrayBuffer"
      using hdr by (simp add: frameHeaderSize_def)
    ultimately show ?thesis
      using p unfolding r
      by (intro exI [of _ p])
         (simp add: frame_at_def fields_at_def meters_at_def offset_defs Let_def
            del: jmul_Num jdiv_Num jadd_Num)
  qed
  show ?thesis unfolding Let_def using parse recs by blast
qed

text \<open>
  The variant-A log decodes to its record under a name that ends in \<^verbatim>\<open>.SL3\<close> and under
  the bare name \<^verbatim>\<open>SL3\<close>, and to nothing under \<^verbatim>\<open>.sl2\<close>, where byte 36 is read as a
  frame size of 0. The variant-B log decodes to its record under another extension, no
  extension and \<^verbatim>\<open>.sl3.bak\<close>, and to nothing under \<^verbatim>\<open>.SL3\<close>, where 168 bytes of header
  do not fit. A buffer of 60 zero bytes holds the time base of variant A only.
\<close>

theorem variant_from_final_suffix_witness:
  "parseSonarFile one_frame_log_a ''Sonar0001.SL3''
     = Inr [frame_at one_frame_log_a 8 True 1700000000]
   \<and> parseSonarFile one_frame_log_a ''SL3'' = Inr [frame_at one_frame_log_a 8 True 1700000000]
   \<and> parseSonarFile one_frame_log_a ''Sonar0001.sl2'' = Inr []
   \<and> parseSonarFile one_frame_log ''notes.txt'' = Inr [frame_at one_frame_log 8 False 1700000000]
   \<and> parseSonarFile one_frame_log ''README'' = Inr [frame_at one_frame_log 8 False 1700000000]
   \<and> parseSonarFile one_frame_log ''track.sl3.bak''
       = Inr [frame_at one_frame_log 8 False 1700000000]
   \<and> parseSonarFile one_frame_log ''track.SL3'' = Inr []
   \<and> parseSonarFile (replicate 60 0) ''track.sl3'' = Inr []
   \<and> parseSonarFile (replicate 60 0) ''track.sl2'' = Inl RangeError
   \<and> (\<exists>p. 8 \<le> p \<and> p + 168 \<le> length one_frame_log_a
          \<and> header_size (frame_at one_frame_log_a 8 True 1700000000) = 168
          \<and> frame_x (frame_at one_frame_log_a 8 True 1700000000)
              = to_signed 32 (u32 one_frame_log_a (p + 92)))"
proof -
  have n: "(toLowerCase (final_suffix ''Sonar0001.SL3'') = ''sl3'') = True"
    "(toLowerCase (final_suffix ''SL3'') = ''sl3'') = True"
    "(toLowerCase (final_suffix ''track.SL3'') = ''sl3'') = True"
    "(toLowerCase (final_suffix ''track.sl3'') = ''sl3'') = True"
    "(toLowerCase (final_suffix ''Sonar0001.sl2'') = ''sl3'') = False"
    "(toLowerCase (final_suffix ''track.sl2'') = ''sl3'') = False"
    "(toLowerCase (final_suffix ''notes.txt'') = ''sl3'') = False"
    "(toLowerCase (final_suffix ''README'') = ''sl3'') = False"
    "(toLowerCase (final_suffix ''track.sl3.bak'') = ''sl3'') = False"
    by code_simp+
  have z: "scanFrames (replicate 60 0) True (u32 (replicate 60 0) 48) 8 [] = Inr []"
    by (subst scan_unfold) (simp add: frameHeaderSize_def)
  note a1 = variant_from_final_suffix [of "''Sonar0001.SL3''" one_frame_log_a]
    and a2 = variant_from_final_suffix [of "''SL3''" one_frame_log_a]
    and a3 = variant_from_final_suffix [of "''Sonar0001.sl2''" one_frame_log_a]
    and b1 = variant_from_final_suffix [of "''notes.txt''" one_frame_log]
    and b2 = variant_from_final_suffix [of "''README''" one_frame_log]
    and b3 = variant_from_final_suffix [of "''track.sl3.bak''" one_frame_log]
    and b4 = variant_from_final_suffix [of "''track.SL3''" one_frame_log]
    and c1 = variant_from_final_suffix [of "''track.sl3''" "replicate 60 0"]
    and c2 = variant_from_final_suffix [of "''track.sl2''" "replicate 60 0"]
  have p1: "parseSonarFile one_frame_log_a ''Sonar0001.SL3''
      = Inr [frame_at one_frame_log_a 8 True 1700000000]"
    using a1 by (simp add: n Let_def length_one_frame_log_a one_frame_a_values
        one_frame_a_scan_as_A)
  have p2: "parseSonarFile one_frame_log_a ''SL3'' = Inr [frame_at one_frame_log_a 8 True 1700000000]"
    using a2 by (simp add: n Let_def length_one_frame_log_a one_frame_a_values
        one_frame_a_scan_as_A)
  have p3: "parseSonarFile one_frame_log_a ''Sonar0001.sl2'' = Inr []"
    using a3 by (simp add: n Let_def length_one_frame_log_a one_frame_a_values
        one_frame_a_scan_as_B)
  have q1: "parseSonarFile one_frame_log ''notes.txt''
      = Inr [frame_at one_frame_log 8 False 1700000000]"
    using b1 by (simp add: n Let_def length_one_frame_log one_frame_values one_frame_scan_as_B)
  have q2: "parseSonarFile one_frame_log ''README''
      = Inr [frame_at one_frame_log 8 False 1700000000]"
    using b2 by (simp add: n Let_def length_one_frame_log one_frame_values one_frame_scan_as_B)
  have q3: "parseSonarFile one_frame_log ''track.sl3.bak''
      = Inr [frame_at one_frame_log 8 False 1700000000]"
    using b3 by (simp add: n Let_def length_one_frame_log one_frame_values one_frame_scan_as_B)
  have q4: "parseSonarFile one_frame_log ''track.SL3'' = Inr []"
    using b4 by (simp add: n Let_def length_one_frame_log one_frame_values one_frame_scan_as_A)
  have r1: "parseSonarFile (replicate 60 0) ''track.sl3'' = Inr []"
    using c1 z by (simp add: n Let_def)
  have r2: "parseSonarFile (replicate 60 0) ''track.sl2'' = Inl RangeError"
    using c2 by (simp add: n Let_def)
  have "frame_at one_frame_log_a 8 True 1700000000
          \<in> set [frame_at one_frame_log_a 8 True 1700000000]" by simp
  with a1 p1 have "\<exists>p. 8 \<le> p \<and> p + 168 \<le> length one_frame_log_a
          \<and> header_size (frame_at one_frame_log_a 8 True 1700000000) = 168
          \<and> frame_x (frame_at one_frame_log_a 8 True 1700000000)
              = to_signed 32 (u32 one_frame_log_a (p + 92))"
    unfolding Let_def n by (simp del: jmul_Num) blast
  with p1 p2 p3 q1 q2 q3 q4 r1 r2 show ?thesis by simp
qed

end
